theory Spec2Isabelle
  imports Main
begin

section \<open>Strings\<close>

text \<open>
  A JavaScript string is modelled as a \<^typ>\<open>string\<close>: a list of code units, restricted to
  the code units below 256. The string methods the extension calls are written out below.
\<close>

abbreviation LF :: char where "LF \<equiv> CHR 0x0A"
abbreviation CR :: char where "CR \<equiv> CHR 0x0D"

text \<open>\<^verbatim>\<open>str.replace(/\r\n/g, '\n')\<close>: a left-to-right scan over non-overlapping matches.\<close>

fun replace_crlf :: "string \<Rightarrow> string" where
  "replace_crlf (c # d # s) =
     (if c = CR \<and> d = LF then LF # replace_crlf s else c # replace_crlf (d # s))"
| "replace_crlf s = s"

text \<open>\<^verbatim>\<open>str.replace(/\r/g, '\n')\<close>.\<close>

definition replace_cr :: "string \<Rightarrow> string" where
  "replace_cr s = map (\<lambda>c. if c = CR then LF else c) s"

text \<open>
  \<^verbatim>\<open>function normalizeLineEndings(str) { if (!str) return '';
    return str.replace(/\r\n/g, '\n').replace(/\r/g, '\n'); }\<close>
\<close>

definition normalizeLineEndings :: "string \<Rightarrow> string" where
  "normalizeLineEndings str = (if str = [] then [] else replace_cr (replace_crlf str))"

text \<open>
  The reading of the specification, in one pass: a carriage return followed by a line feed
  becomes one line feed, any other carriage return becomes a line feed, every other
  character stays.
\<close>

fun normalize_one_pass :: "string \<Rightarrow> string" where
  "normalize_one_pass (c # d # s) =
     (if c = CR \<and> d = LF then LF # normalize_one_pass s
      else (if c = CR then LF else c) # normalize_one_pass (d # s))"
| "normalize_one_pass [c] = [if c = CR then LF else c]"
| "normalize_one_pass [] = []"

text \<open>
  \<^verbatim>\<open>String.prototype.trim\<close>: the white space and line terminator code units below 256 are
  TAB, LF, VT, FF, CR, SP and NBSP.
\<close>

definition isWhiteSpace :: "char \<Rightarrow> bool" where
  "isWhiteSpace c \<longleftrightarrow>
     c = CHR 0x09 \<or> c = CHR 0x0A \<or> c = CHR 0x0B \<or> c = CHR 0x0C \<or> c = CHR 0x0D \<or>
     c = CHR 0x20 \<or> c = CHR 0xA0"

definition trim :: "string \<Rightarrow> string" where
  "trim s = rev (dropWhile isWhiteSpace (rev (dropWhile isWhiteSpace s)))"

definition startsWith :: "string \<Rightarrow> string \<Rightarrow> bool" where
  "startsWith s p \<longleftrightarrow> take (length p) s = p"

definition endsWith :: "string \<Rightarrow> string \<Rightarrow> bool" where
  "endsWith s p \<longleftrightarrow> length p \<le> length s \<and> drop (length s - length p) s = p"

text \<open>\<^verbatim>\<open>lines.join('\n')\<close>.\<close>

fun join :: "string list \<Rightarrow> string" where
  "join [] = []"
| "join [l] = l"
| "join (l # ls) = l @ LF # join ls"

text \<open>\<^verbatim>\<open>s.replace(/^a\//, '')\<close>, \<^verbatim>\<open>s.replace(/^b\//, '')\<close> and \<^verbatim>\<open>s.replace(/^[ab]\//, '')\<close>.\<close>

definition stripA :: "string \<Rightarrow> string" where
  "stripA s = (if startsWith s ''a/'' then drop 2 s else s)"

definition stripB :: "string \<Rightarrow> string" where
  "stripB s = (if startsWith s ''b/'' then drop 2 s else s)"

definition stripAB :: "string \<Rightarrow> string" where
  "stripAB s = (if startsWith s ''a/'' \<or> startsWith s ''b/'' then drop 2 s else s)"

text \<open>\<^verbatim>\<open>s.split('/').pop()\<close>: the part after the last slash.\<close>

definition basename :: "string \<Rightarrow> string" where
  "basename s = rev (takeWhile (\<lambda>c. c \<noteq> CHR ''/'') (rev s))"

text \<open>
  \<^verbatim>\<open>a || d\<close> for an optional string \<open>a\<close> and a string \<open>d\<close>: \<^verbatim>\<open>undefined\<close> and the empty
  string are falsy.
\<close>

definition truthy :: "string option \<Rightarrow> bool" where
  "truthy a \<longleftrightarrow> (case a of None \<Rightarrow> False | Some s \<Rightarrow> s \<noteq> [])"

definition orElse :: "string option \<Rightarrow> string \<Rightarrow> string" where
  "orElse a d = (case a of None \<Rightarrow> d | Some s \<Rightarrow> if s = [] then d else s)"

section \<open>Cleaning the pasted text\<close>

text \<open>
  \<^verbatim>\<open>cleanDiffInput\<close>: trim; drop a leading \<^verbatim>\<open>```diff\<close>; drop a trailing \<^verbatim>\<open>```\<close>; trim.
\<close>

definition cleanDiffInput :: "string \<Rightarrow> string" where
  "cleanDiffInput rawDiffText =
     (let t0 = trim rawDiffText;
          t1 = (if startsWith t0 ''```diff'' then drop (length ''```diff'') t0 else t0);
          t2 = (if endsWith t1 ''```'' then take (length t1 - length ''```'') t1 else t1)
      in trim t2)"

section \<open>Parsed patches\<close>

text \<open>The structured patch of the diff library: \<^verbatim>\<open>Diff.StructuredPatch\<close> and its hunks.\<close>

record hunk =
  oldStart :: nat
  oldLines :: nat
  newStart :: nat
  newLines :: nat
  lines :: "string list"

record patch =
  oldFileName :: "string option"
  newFileName :: "string option"
  hunks :: "hunk list"

section \<open>Reconstructing the two sides of a patch for the diff view\<close>

text \<open>
  The body of \<^verbatim>\<open>hunk.lines.forEach\<close> in \<^verbatim>\<open>processAndShowAllDiffs\<close>: \<^verbatim>\<open>line.charAt(0)\<close>
  selects, \<^verbatim>\<open>line.substring(1)\<close> is pushed.
\<close>

definition pushLine :: "string \<Rightarrow> string list \<times> string list \<Rightarrow> string list \<times> string list" where
  "pushLine line acc =
     (let changeType = take 1 line;
          lineContent = drop 1 line;
          originalContentLines =
            (if changeType = '' '' \<or> changeType = ''-'' then fst acc @ [lineContent] else fst acc);
          newContentLines =
            (if changeType = '' '' \<or> changeType = ''+'' then snd acc @ [lineContent] else snd acc)
      in (originalContentLines, newContentLines))"

definition contentLines :: "hunk list \<Rightarrow> string list \<times> string list" where
  "contentLines hs = fold (\<lambda>h acc. fold pushLine (lines h) acc) hs ([], [])"

definition reconstruct :: "hunk list \<Rightarrow> string \<times> string" where
  "reconstruct hs =
     (let (originalContentLines, newContentLines) = contentLines hs
      in (normalizeLineEndings (join originalContentLines),
          normalizeLineEndings (join newContentLines)))"

text \<open>The classification of a hunk line by its first character.\<close>

definition isOldLine :: "string \<Rightarrow> bool" where
  "isOldLine line \<longleftrightarrow> take 1 line = '' '' \<or> take 1 line = ''-''"

definition isNewLine :: "string \<Rightarrow> bool" where
  "isNewLine line \<longleftrightarrow> take 1 line = '' '' \<or> take 1 line = ''+''"

definition allLines :: "hunk list \<Rightarrow> string list" where
  "allLines hs = concat (map lines hs)"

section \<open>The host: workspace files, notifications, prompts\<close>

text \<open>
  The extension runs inside the editor. What it observes and changes there is the state
  \<open>world\<close>: the workspace files (a file holds its decoded text) and the trace of what the
  extension has done so far. The trace records every notification, every call of the
  file-system provider and every call of \<^verbatim>\<open>Diff.applyPatch\<close>, in order.
\<close>

type_synonym uri = string

datatype node = File string | Directory

datatype fileType = FileT | DirectoryT

datatype exn = Exn (excCode: string) (excName: string) (excMessage: string)

datatype severity = ErrorMessage | InformationMessage | WarningMessage

text \<open>
  One constructor per message text of the source; the arguments are the values the source
  interpolates into the text (a target is carried as its Uri, not as the relative path
  printed for it).
\<close>

datatype notice =
    NoDiffContent
  | CouldNotParse
  | ErrorParsing string
  | SkippingNoHunks string
  | CriticalError string string
  | Summary nat nat nat
  | NoValidFileName "string option" "string option"
  | CreationCancelled string
  | ApplicationCancelled string
  | NoFileSelected string
  | TargetIsDirectory uri string
  | CancelledExistingFile uri string
  | TargetNotFound uri string
  | FailedToApply uri string
  | FileDeleted uri string
  | UpdatedInsteadOfDeleted uri string
  | PatchApplied uri string
  | CreatedEmpty uri string
  | ErrorApplying uri string string
  | SkippingDiffView string
  | ErrorDiffView string string
  | OpenedDiffViews nat
  | NoDiffViews
  | NoDiffContentToView
  | CouldNotParseForView
  | ErrorParsingForView string

datatype event =
    Notify severity notice
  | PostParseError notice
  | Stat uri
  | ReadFile uri
  | WriteFile uri string
  | Delete uri
  | OpenTextDocument uri
  | ShowTextDocument uri
  | OpenContent string
  | ShowDiff string string string string
  | ApplyPatch string patch nat

record world =
  files :: "uri \<Rightarrow> node option"
  trace :: "event list"

datatype action = select_this_uri | choose_manually | cancel_operation

record FileQuickPickItem =
  label :: string
  action :: action
  uri :: "uri option"

text \<open>
  Everything the extension is given: the diff library (\<^verbatim>\<open>Diff.parsePatch\<close> may throw,
  \<^verbatim>\<open>Diff.applyPatch\<close> returns \<^verbatim>\<open>false\<close>, here \<open>None\<close>, when the patch does not fit), the
  workspace, the Uri functions, and the answers of the user to each prompt. An answer may
  depend on everything that happened before, so each prompt reads the world. \<open>fault\<close> says
  whether an awaited host call is rejected, and with which error.
\<close>

record env =
  parsePatch :: "string \<Rightarrow> exn + patch list"
  applyPatch :: "string \<Rightarrow> patch \<Rightarrow> nat \<Rightarrow> exn + string option"
  view :: bool
  workspaceFolders :: "uri list"
  joinPath :: "uri \<Rightarrow> string \<Rightarrow> exn + uri"
  uriFile :: "string \<Rightarrow> exn + uri"
  fsPath :: "uri \<Rightarrow> string"
  asRelativePath :: "uri \<Rightarrow> string"
  findFiles :: "world \<Rightarrow> string \<Rightarrow> exn + uri list"
  showInputBox :: "world \<Rightarrow> string \<Rightarrow> string \<Rightarrow> exn + string option"
  showQuickPick :: "world \<Rightarrow> string list \<Rightarrow> uri \<Rightarrow> string \<Rightarrow> exn + string option"
  showQuickPickItems ::
    "world \<Rightarrow> FileQuickPickItem list \<Rightarrow> string \<Rightarrow> exn + FileQuickPickItem option"
  showOpenDialog :: "world \<Rightarrow> string \<Rightarrow> uri option \<Rightarrow> exn + uri list option"
  showWarningModal :: "world \<Rightarrow> uri \<Rightarrow> string \<Rightarrow> exn + string option"
  fault :: "world \<Rightarrow> event \<Rightarrow> exn option"

subsection \<open>Computations on the host\<close>

text \<open>
  An \<^verbatim>\<open>async\<close> function is a function from the world to its outcome and the world after it:
  \<open>Inl\<close> is a thrown error (a rejected promise), \<open>Inr\<close> the value returned.
\<close>

type_synonym 'a host = "world \<Rightarrow> (exn + 'a) \<times> world"

definition retH :: "'a \<Rightarrow> 'a host" where
  "retH x = (\<lambda>w. (Inr x, w))"

definition throwH :: "exn \<Rightarrow> 'a host" where
  "throwH e = (\<lambda>w. (Inl e, w))"

definition bindH :: "'a host \<Rightarrow> ('a \<Rightarrow> 'b host) \<Rightarrow> 'b host" where
  "bindH m f = (\<lambda>w. case m w of (Inl e, w') \<Rightarrow> (Inl e, w') | (Inr x, w') \<Rightarrow> f x w')"

definition catchH :: "'a host \<Rightarrow> (exn \<Rightarrow> 'a host) \<Rightarrow> 'a host" where
  "catchH m h = (\<lambda>w. case m w of (Inl e, w') \<Rightarrow> h e w' | (Inr x, w') \<Rightarrow> (Inr x, w'))"

definition liftE :: "exn + 'a \<Rightarrow> 'a host" where
  "liftE r = (\<lambda>w. (r, w))"

definition ask :: "(world \<Rightarrow> exn + 'a) \<Rightarrow> 'a host" where
  "ask f = (\<lambda>w. (f w, w))"

definition emit :: "event \<Rightarrow> world \<Rightarrow> world" where
  "emit ev w = w\<lparr>trace := trace w @ [ev]\<rparr>"

text \<open>The three \<^verbatim>\<open>vscode.window.show...Message\<close> calls that are not awaited.\<close>

definition notify :: "severity \<Rightarrow> notice \<Rightarrow> unit host" where
  "notify sev n = (\<lambda>w. (Inr (), emit (Notify sev n) w))"

text \<open>\<^verbatim>\<open>if (this._view) this._view.webview.postMessage({ type: 'parseError', ... })\<close>.\<close>

definition postParseError :: "env \<Rightarrow> notice \<Rightarrow> unit host" where
  "postParseError env n = (\<lambda>w. (Inr (), if view env then emit (PostParseError n) w else w))"

text \<open>An awaited host call: recorded, then rejected if the host says so, else performed.\<close>

definition hostcall :: "env \<Rightarrow> event \<Rightarrow> 'a host \<Rightarrow> 'a host" where
  "hostcall env ev run =
     (\<lambda>w. case fault env w ev of
            Some e \<Rightarrow> (Inl e, emit ev w)
          | None \<Rightarrow> run (emit ev w))"

definition fileNotFound :: exn where
  "fileNotFound = Exn ''FileNotFound'' ''EntryNotFound (FileSystemError)'' ''file not found''"

definition fileIsADirectory :: exn where
  "fileIsADirectory =
     Exn ''FileIsADirectory'' ''EntryIsADirectory (FileSystemError)'' ''file is a directory''"

text \<open>\<^verbatim>\<open>vscode.workspace.fs\<close>: \<^verbatim>\<open>stat\<close>, \<^verbatim>\<open>readFile\<close>, \<^verbatim>\<open>writeFile\<close>, \<^verbatim>\<open>delete\<close>.\<close>

definition stat :: "env \<Rightarrow> uri \<Rightarrow> fileType host" where
  "stat env u = hostcall env (Stat u)
     (\<lambda>w. case files w u of
            None \<Rightarrow> (Inl fileNotFound, w)
          | Some (File c) \<Rightarrow> (Inr FileT, w)
          | Some Directory \<Rightarrow> (Inr DirectoryT, w))"

definition readFile :: "env \<Rightarrow> uri \<Rightarrow> string host" where
  "readFile env u = hostcall env (ReadFile u)
     (\<lambda>w. case files w u of
            None \<Rightarrow> (Inl fileNotFound, w)
          | Some (File c) \<Rightarrow> (Inr c, w)
          | Some Directory \<Rightarrow> (Inl fileIsADirectory, w))"

definition writeFile :: "env \<Rightarrow> uri \<Rightarrow> string \<Rightarrow> unit host" where
  "writeFile env u c = hostcall env (WriteFile u c)
     (\<lambda>w. case files w u of
            Some Directory \<Rightarrow> (Inl fileIsADirectory, w)
          | _ \<Rightarrow> (Inr (), w\<lparr>files := (files w)(u \<mapsto> File c)\<rparr>))"

definition delete :: "env \<Rightarrow> uri \<Rightarrow> unit host" where
  "delete env u = hostcall env (Delete u)
     (\<lambda>w. case files w u of
            None \<Rightarrow> (Inl fileNotFound, w)
          | Some (File c) \<Rightarrow> (Inr (), w\<lparr>files := (files w)(u := None)\<rparr>)
          | Some Directory \<Rightarrow> (Inl fileIsADirectory, w))"

definition openTextDocument :: "env \<Rightarrow> uri \<Rightarrow> unit host" where
  "openTextDocument env u = hostcall env (OpenTextDocument u) (retH ())"

definition showTextDocument :: "env \<Rightarrow> uri \<Rightarrow> unit host" where
  "showTextDocument env u = hostcall env (ShowTextDocument u) (retH ())"

text \<open>\<^verbatim>\<open>Diff.applyPatch(content, patch, { fuzzFactor: fuzz })\<close>, recorded in the trace.\<close>

definition callApplyPatch :: "env \<Rightarrow> string \<Rightarrow> patch \<Rightarrow> nat \<Rightarrow> string option host" where
  "callApplyPatch env content p fuzz =
     (\<lambda>w. (applyPatch env content p fuzz, emit (ApplyPatch content p fuzz) w))"

section \<open>Applying one patch: \<^verbatim>\<open>applySinglePatch\<close>\<close>

definition isNewFile :: "patch \<Rightarrow> bool" where
  "isNewFile p \<longleftrightarrow> oldFileName p = Some ''a/dev/null'' \<or> oldFileName p = Some ''/dev/null''"

definition isDeletedFile :: "patch \<Rightarrow> bool" where
  "isDeletedFile p \<longleftrightarrow> newFileName p = Some ''b/dev/null'' \<or> newFileName p = Some ''/dev/null''"

text \<open>
  Lines 222 to 241: \<^verbatim>\<open>searchFileNameNormalized\<close> and \<^verbatim>\<open>displayFileName\<close>; \<open>None\<close> is the
  branch that reports that no valid file name could be determined.
\<close>

definition fileNames :: "patch \<Rightarrow> (string \<times> string) option" where
  "fileNames p =
     (let searchFileNameNormalized =
            (if isNewFile p then map_option stripB (newFileName p)
             else map_option stripA (oldFileName p));
          displayFileName =
            orElse searchFileNameNormalized
              (orElse (map_option stripB (newFileName p)) ''unknown_file'')
      in case searchFileNameNormalized of
           None \<Rightarrow>
             (case newFileName p of
                Some n \<Rightarrow> if isNewFile p \<and> n \<noteq> [] then Some (stripB n, stripB n) else None
              | None \<Rightarrow> None)
         | Some s \<Rightarrow>
             if s = [] \<or> s = ''/dev/null'' \<or> trim s = [] then
               (case newFileName p of
                  Some n \<Rightarrow> if isNewFile p \<and> n \<noteq> [] then Some (stripB n, stripB n) else None
                | None \<Rightarrow> None)
             else Some (s, displayFileName))"

text \<open>
  Lines 245 to 260, a new file: the user is asked for the path. \<open>None\<close> is
  \<^verbatim>\<open>return false\<close>. \<^verbatim>\<open>Uri.joinPath\<close>, the input box and \<^verbatim>\<open>Uri.file\<close> are outside every
  \<^verbatim>\<open>try\<close>: what they throw leaves \<^verbatim>\<open>applySinglePatch\<close>.
\<close>

definition newFileTarget :: "env \<Rightarrow> string \<Rightarrow> uri option host" where
  "newFileTarget env search =
     bindH (case workspaceFolders env of
              [] \<Rightarrow> retH search
            | wsFolder # _ \<Rightarrow>
                bindH (liftE (joinPath env wsFolder search)) (\<lambda>u. retH (fsPath env u)))
       (\<lambda>defaultPath.
          bindH (ask (\<lambda>w. showInputBox env w search defaultPath))
            (\<lambda>chosenPathStr.
               if truthy chosenPathStr then
                 bindH (liftE (uriFile env (orElse chosenPathStr []))) (\<lambda>u. retH (Some u))
               else
                 bindH (notify InformationMessage (CreationCancelled search))
                   (\<lambda>_. retH None)))"

text \<open>
  Lines 264 to 281: the exact path below the workspace root, else up to five files with
  the same base name. Both searches swallow what they throw.
\<close>

definition findCandidates :: "env \<Rightarrow> uri \<Rightarrow> string \<Rightarrow> uri list host" where
  "findCandidates env wsFolder search =
     bindH (catchH
              (bindH (liftE (joinPath env wsFolder search))
                 (\<lambda>potentialUri.
                    catchH (bindH (stat env potentialUri) (\<lambda>_. retH [potentialUri]))
                      (\<lambda>_. retH [])))
              (\<lambda>_. retH []))
       (\<lambda>foundFilesUris.
          if foundFilesUris = [] then
            catchH (ask (\<lambda>w. findFiles env w (''**/'' @ basename search))) (\<lambda>_. retH [])
          else retH foundFilesUris)"

text \<open>
  Lines 283 to 315. The outcome \<open>None\<close> is \<^verbatim>\<open>return false\<close>, \<open>Some None\<close> leaves
  \<^verbatim>\<open>targetFileUri\<close> undefined, \<open>Some (Some u)\<close> sets it.
\<close>

definition chooseCandidate :: "env \<Rightarrow> uri list \<Rightarrow> string \<Rightarrow> uri option option host" where
  "chooseCandidate env foundFilesUris display =
     (case foundFilesUris of
        [] \<Rightarrow> retH (Some None)
      | [found] \<Rightarrow>
          bindH (ask (\<lambda>w. showQuickPick env w
                   [''Yes, Apply to this file'', ''Choose Different File'', ''Cancel'']
                   found display))
            (\<lambda>choice.
               if choice = Some ''Yes, Apply to this file'' then retH (Some (Some found))
               else if choice = Some ''Cancel'' \<or> \<not> truthy choice then
                 bindH (notify InformationMessage (ApplicationCancelled display))
                   (\<lambda>_. retH None)
               else retH (Some None))
      | _ \<Rightarrow>
          bindH (ask (\<lambda>w. showQuickPickItems env w
                   (map (\<lambda>fUri. \<lparr>label = asRelativePath env fUri, action = select_this_uri,
                                 uri = Some fUri\<rparr>) foundFilesUris
                    @ [\<lparr>label = ''Choose Different File (Manually)'', action = choose_manually,
                         uri = None\<rparr>,
                       \<lparr>label = ''Cancel'', action = cancel_operation, uri = None\<rparr>])
                   display))
            (\<lambda>chosenItem.
               case chosenItem of
                 None \<Rightarrow>
                   bindH (notify InformationMessage (ApplicationCancelled display))
                     (\<lambda>_. retH None)
               | Some item \<Rightarrow>
                   if action item = cancel_operation then
                     bindH (notify InformationMessage (ApplicationCancelled display))
                       (\<lambda>_. retH None)
                   else if action item = select_this_uri \<and> uri item \<noteq> None then
                     retH (Some (uri item))
                   else retH (Some None)))"

text \<open>Lines 318 to 340: the open dialog, with the default Uri it is given.\<close>

definition chooseManually :: "env \<Rightarrow> string \<Rightarrow> string \<Rightarrow> uri option host" where
  "chooseManually env search display =
     (let defaultUri =
            (case workspaceFolders env of
               wsFolder # _ \<Rightarrow>
                 (case joinPath env wsFolder search of Inr u \<Rightarrow> Some u | Inl _ \<Rightarrow> None)
             | [] \<Rightarrow>
                 if search \<noteq> [] then
                   (case uriFile env search of Inr u \<Rightarrow> Some u | Inl _ \<Rightarrow> None)
                 else None)
      in bindH (ask (\<lambda>w. showOpenDialog env w display defaultUri))
           (\<lambda>uris. case uris of
                      Some (u # _) \<Rightarrow> retH (Some u)
                    | _ \<Rightarrow> bindH (notify InformationMessage (NoFileSelected display))
                             (\<lambda>_. retH None)))"

text \<open>Lines 261 to 341, a modification or a deletion: the existing file is looked for.\<close>

definition existingTarget :: "env \<Rightarrow> string \<Rightarrow> string \<Rightarrow> uri option host" where
  "existingTarget env search display =
     bindH (case workspaceFolders env of
              [] \<Rightarrow> retH (Some None)
            | wsFolder # _ \<Rightarrow>
                bindH (findCandidates env wsFolder search)
                  (\<lambda>foundFilesUris. chooseCandidate env foundFilesUris display))
       (\<lambda>chosen. case chosen of
                    None \<Rightarrow> retH None
                  | Some (Some u) \<Rightarrow> retH (Some u)
                  | Some None \<Rightarrow> chooseManually env search display)"

text \<open>
  Lines 219 to 346: the target and the display name, or \<open>None\<close> for \<^verbatim>\<open>return false\<close>.
  Every path that reaches line 343 has set \<^verbatim>\<open>targetFileUri\<close>, so the check there never
  fires and has no branch here.
\<close>

definition resolveTarget :: "env \<Rightarrow> patch \<Rightarrow> (uri \<times> string) option host" where
  "resolveTarget env p =
     (case fileNames p of
        None \<Rightarrow>
          bindH (notify ErrorMessage (NoValidFileName (oldFileName p) (newFileName p)))
            (\<lambda>_. retH None)
      | Some (search, display) \<Rightarrow>
          bindH (if isNewFile p then newFileTarget env search
                 else existingTarget env search display)
            (\<lambda>t. retH (map_option (\<lambda>u. (u, display)) t)))"

text \<open>
  Lines 352 to 365: \<^verbatim>\<open>fileExists\<close>, or \<open>None\<close> for the \<^verbatim>\<open>return false\<close> on a directory. A
  \<^verbatim>\<open>stat\<close> error other than not-found is thrown again.
\<close>

definition targetExists :: "env \<Rightarrow> uri \<Rightarrow> string \<Rightarrow> bool option host" where
  "targetExists env target display =
     catchH
       (bindH (stat env target)
          (\<lambda>st. if st = DirectoryT then
                   bindH (notify ErrorMessage (TargetIsDirectory target display))
                     (\<lambda>_. retH None)
                 else retH (Some True)))
       (\<lambda>e. if excCode e = ''FileNotFound'' \<or> excName e = ''EntryNotFound''
             then retH (Some False) else throwH e)"

text \<open>Lines 367 to 386: \<^verbatim>\<open>originalFileContent\<close>, or \<open>None\<close> for \<^verbatim>\<open>return false\<close>.\<close>

definition originalContent ::
  "env \<Rightarrow> patch \<Rightarrow> uri \<Rightarrow> string \<Rightarrow> bool \<Rightarrow> string option host" where
  "originalContent env p target display fileExists =
     (if isNewFile p then
        (if fileExists then
           bindH (ask (\<lambda>w. showWarningModal env w target display))
             (\<lambda>overwrite.
                if overwrite \<noteq> Some ''Overwrite'' then
                  bindH (notify InformationMessage (CancelledExistingFile target display))
                    (\<lambda>_. retH None)
                else retH (Some []))
         else retH (Some []))
      else
        (if \<not> fileExists then
           bindH (notify ErrorMessage (TargetNotFound target display)) (\<lambda>_. retH None)
         else bindH (readFile env target) (\<lambda>originalFileContent. retH (Some originalFileContent))))"

text \<open>Lines 403 to 425: what is done with the patched content.\<close>

definition writeResult :: "env \<Rightarrow> patch \<Rightarrow> uri \<Rightarrow> string \<Rightarrow> string \<Rightarrow> bool host" where
  "writeResult env p target display patchedContentResult =
     (if isDeletedFile p then
        (if trim patchedContentResult = [] then
           bindH (delete env target)
             (\<lambda>_. bindH (notify InformationMessage (FileDeleted target display))
             (\<lambda>_. retH True))
         else
           bindH (writeFile env target patchedContentResult)
             (\<lambda>_. bindH (notify WarningMessage (UpdatedInsteadOfDeleted target display))
             (\<lambda>_. bindH (openTextDocument env target)
             (\<lambda>_. bindH (showTextDocument env target)
             (\<lambda>_. retH True)))))
      else
        bindH (writeFile env target patchedContentResult)
          (\<lambda>_. bindH (notify InformationMessage (PatchApplied target display))
          (\<lambda>_. bindH (if patchedContentResult \<noteq> [] then
                         bindH (openTextDocument env target) (\<lambda>_. showTextDocument env target)
                       else if isNewFile p \<and> patchedContentResult = [] then
                         notify InformationMessage (CreatedEmpty target display)
                       else retH ())
          (\<lambda>_. retH True))))"

text \<open>
  Lines 388 to 425: the original content is normalised, the library applies the patch to
  it with \<^verbatim>\<open>fuzzFactor: 2\<close>, and a result other than \<^verbatim>\<open>false\<close> is written.
\<close>

definition patchAndWrite :: "env \<Rightarrow> patch \<Rightarrow> uri \<Rightarrow> string \<Rightarrow> string \<Rightarrow> bool host" where
  "patchAndWrite env p target display originalFileContent =
     bindH (callApplyPatch env (normalizeLineEndings originalFileContent) p 2)
       (\<lambda>patchedContentResult. case patchedContentResult of
          None \<Rightarrow>
            bindH (notify ErrorMessage (FailedToApply target display)) (\<lambda>_. retH False)
        | Some patched \<Rightarrow> writeResult env p target display patched)"

text \<open>Lines 427 to 433: the \<^verbatim>\<open>catch\<close> of the \<^verbatim>\<open>try\<close> block.\<close>

definition reportError :: "uri \<Rightarrow> string \<Rightarrow> exn \<Rightarrow> bool host" where
  "reportError target display err =
     bindH (notify ErrorMessage (ErrorApplying target display (excMessage err)))
       (\<lambda>_. retH False)"

text \<open>Lines 348 to 433: the \<^verbatim>\<open>try\<close> block, in which every error ends in \<^verbatim>\<open>return false\<close>.\<close>

definition applyToTarget :: "env \<Rightarrow> patch \<Rightarrow> uri \<Rightarrow> string \<Rightarrow> bool host" where
  "applyToTarget env p target display =
     catchH
       (bindH (targetExists env target display)
          (\<lambda>exists. case exists of
             None \<Rightarrow> retH False
           | Some fileExists \<Rightarrow>
               bindH (originalContent env p target display fileExists)
                 (\<lambda>content. case content of
                    None \<Rightarrow> retH False
                  | Some originalFileContent \<Rightarrow>
                      patchAndWrite env p target display originalFileContent)))
       (reportError target display)"

definition applySinglePatch :: "env \<Rightarrow> patch \<Rightarrow> bool host" where
  "applySinglePatch env p =
     bindH (resolveTarget env p)
       (\<lambda>t. case t of
               None \<Rightarrow> retH False
             | Some (target, display) \<Rightarrow> applyToTarget env p target display)"

section \<open>Applying every patch of a pasted text: \<^verbatim>\<open>applyAllPatchesToFiles\<close>\<close>

definition patchName :: "patch \<Rightarrow> string" where
  "patchName p = stripAB (orElse (oldFileName p) (orElse (newFileName p) ''unknown_file''))"

text \<open>The \<^verbatim>\<open>for\<close> loop of lines 186 to 206 over the three counters.\<close>

fun applyLoop :: "env \<Rightarrow> patch list \<Rightarrow> nat \<times> nat \<times> nat \<Rightarrow> world \<Rightarrow> (nat \<times> nat \<times> nat) \<times> world" where
  "applyLoop env [] counts w = (counts, w)"
| "applyLoop env (p # ps) (appliedCount, skippedCount, errorCount) w =
     (if hunks p = [] then
        applyLoop env ps (appliedCount, skippedCount + 1, errorCount)
          (emit (Notify InformationMessage (SkippingNoHunks (patchName p))) w)
      else
        (case applySinglePatch env p w of
           (Inr True, w') \<Rightarrow> applyLoop env ps (appliedCount + 1, skippedCount, errorCount) w'
         | (Inr False, w') \<Rightarrow> applyLoop env ps (appliedCount, skippedCount + 1, errorCount) w'
         | (Inl err, w') \<Rightarrow>
             applyLoop env ps (appliedCount, skippedCount, errorCount + 1)
               (emit (Notify ErrorMessage (CriticalError (patchName p) (excMessage err))) w')))"

text \<open>Lines 208 to 215: the summary and its severity.\<close>

definition summary :: "nat \<times> nat \<times> nat \<Rightarrow> event" where
  "summary counts =
     (case counts of (appliedCount, skippedCount, errorCount) \<Rightarrow>
        Notify (if errorCount > 0 then ErrorMessage
                else if appliedCount > 0 then InformationMessage
                else WarningMessage)
          (Summary appliedCount skippedCount errorCount))"

definition applyAllPatchesToFiles :: "env \<Rightarrow> string \<Rightarrow> world \<Rightarrow> world" where
  "applyAllPatchesToFiles env rawDiffText w =
     (let cleanDiffText = cleanDiffInput rawDiffText in
      if cleanDiffText = [] then emit (Notify InformationMessage NoDiffContent) w
      else
        (case parsePatch env cleanDiffText of
           Inl e \<Rightarrow>
             snd (postParseError env (ErrorParsing (excMessage e))
                    (emit (Notify ErrorMessage (ErrorParsing (excMessage e))) w))
         | Inr parsedPatches \<Rightarrow>
             if parsedPatches = [] then
               snd (postParseError env CouldNotParse (emit (Notify ErrorMessage CouldNotParse) w))
             else
               (case applyLoop env parsedPatches (0, 0, 0) w of
                  (counts, w') \<Rightarrow> emit (summary counts) w')))"

section \<open>Showing every patch of a pasted text: \<^verbatim>\<open>processAndShowAllDiffs\<close>\<close>

text \<open>
  Lines 107 to 137, the \<^verbatim>\<open>try\<close> block for one patch: two untitled documents with the
  reconstructed contents, then the \<^verbatim>\<open>vscode.diff\<close> command on them.
\<close>

definition showDiffView :: "env \<Rightarrow> patch \<Rightarrow> unit host" where
  "showDiffView env p =
     (case reconstruct (hunks p) of (original, modified) \<Rightarrow>
        bindH (hostcall env (OpenContent original) (retH ()))
          (\<lambda>_. bindH (hostcall env (OpenContent modified) (retH ()))
          (\<lambda>_. hostcall env
                  (ShowDiff original modified
                     (case oldFileName p of
                        None \<Rightarrow> ''original.txt''
                      | Some n \<Rightarrow> if n = [] then ''original.txt'' else stripA n)
                     (case newFileName p of
                        None \<Rightarrow> ''modified.txt''
                      | Some n \<Rightarrow> if n = [] then ''modified.txt'' else stripB n))
                  (retH ()))))"

definition viewName :: "patch \<Rightarrow> string" where
  "viewName p = stripAB (orElse (oldFileName p) (orElse (newFileName p) ''unknown file''))"

text \<open>The \<^verbatim>\<open>for\<close> loop of lines 100 to 147 over \<^verbatim>\<open>diffsShownCount\<close>.\<close>

fun showLoop :: "env \<Rightarrow> patch list \<Rightarrow> nat \<Rightarrow> world \<Rightarrow> nat \<times> world" where
  "showLoop env [] diffsShownCount w = (diffsShownCount, w)"
| "showLoop env (p # ps) diffsShownCount w =
     (if hunks p = [] then
        showLoop env ps diffsShownCount
          (emit (Notify InformationMessage (SkippingDiffView (viewName p))) w)
      else
        (case showDiffView env p w of
           (Inr _, w') \<Rightarrow> showLoop env ps (diffsShownCount + 1) w'
         | (Inl err, w') \<Rightarrow>
             showLoop env ps diffsShownCount
               (snd (postParseError env (ErrorDiffView (viewName p) (excMessage err))
                  (emit (Notify ErrorMessage (ErrorDiffView (viewName p) (excMessage err))) w')))))"

definition processAndShowAllDiffs :: "env \<Rightarrow> string \<Rightarrow> world \<Rightarrow> world" where
  "processAndShowAllDiffs env rawDiffText w =
     (let cleanDiffText = cleanDiffInput rawDiffText in
      if cleanDiffText = [] then emit (Notify InformationMessage NoDiffContentToView) w
      else
        (case parsePatch env cleanDiffText of
           Inl e \<Rightarrow>
             snd (postParseError env (ErrorParsingForView (excMessage e))
                    (emit (Notify ErrorMessage (ErrorParsingForView (excMessage e))) w))
         | Inr parsedPatches \<Rightarrow>
             if parsedPatches = [] then emit (Notify ErrorMessage CouldNotParseForView) w
             else
               (case showLoop env parsedPatches 0 w of
                  (diffsShownCount, w') \<Rightarrow>
                    if diffsShownCount > 0 then
                      emit (Notify InformationMessage (OpenedDiffViews diffsShownCount)) w'
                    else emit (Notify WarningMessage NoDiffViews) w')))"

section \<open>What a run adds to the trace\<close>

text \<open>The events that change a workspace file.\<close>

definition mutates :: "event \<Rightarrow> bool" where
  "mutates ev = (case ev of WriteFile u c \<Rightarrow> True | Delete u \<Rightarrow> True | _ \<Rightarrow> False)"

definition isApplyPatch :: "event \<Rightarrow> bool" where
  "isApplyPatch ev = (case ev of ApplyPatch c q f \<Rightarrow> True | _ \<Rightarrow> False)"

definition isReadFile :: "event \<Rightarrow> bool" where
  "isReadFile ev = (case ev of ReadFile u \<Rightarrow> True | _ \<Rightarrow> False)"

text \<open>The events that report a parse error to the user or to the webview.\<close>

definition isParseError :: "event \<Rightarrow> bool" where
  "isParseError ev =
     (case ev of
        Notify s n \<Rightarrow> (case n of ErrorParsing m \<Rightarrow> True | CouldNotParse \<Rightarrow> True | _ \<Rightarrow> False)
      | PostParseError n \<Rightarrow> True
      | _ \<Rightarrow> False)"

text \<open>
  \<open>ext P w w'\<close>: the world \<open>w'\<close> comes from \<open>w\<close> by adding events that satisfy \<open>P\<close>, and if
  none of them changes a file, the files are the same.
\<close>

definition ext :: "(event \<Rightarrow> bool) \<Rightarrow> world \<Rightarrow> world \<Rightarrow> bool" where
  "ext P w w' \<longleftrightarrow>
     (\<exists>es. trace w' = trace w @ es \<and> list_all P es \<and>
           (list_all (\<lambda>ev. \<not> mutates ev) es \<longrightarrow> files w' = files w))"

definition traced :: "(event \<Rightarrow> bool) \<Rightarrow> (world \<Rightarrow> 'r \<times> world) \<Rightarrow> bool" where
  "traced P m \<longleftrightarrow> (\<forall>w. ext P w (snd (m w)))"

text \<open>
  The events \<^verbatim>\<open>applySinglePatch\<close> can add for the patch \<open>p\<close>: no parse error, no preview
  document; the file is read only if the patch does not create it; the library is called
  on this patch with fuzz factor 2 and normalised content, the empty content for a patch
  that creates its file.
\<close>

definition allowed :: "patch \<Rightarrow> event \<Rightarrow> bool" where
  "allowed p ev =
     (case ev of
        Notify s n \<Rightarrow>
          (case n of ErrorParsing m \<Rightarrow> False | CouldNotParse \<Rightarrow> False | Summary a b c \<Rightarrow> False
           | _ \<Rightarrow> True)
      | PostParseError n \<Rightarrow> False
      | ReadFile u \<Rightarrow> \<not> isNewFile p
      | ApplyPatch c q f \<Rightarrow> q = p \<and> f = 2 \<and> CR \<notin> set c \<and> (isNewFile p \<longrightarrow> c = [])
      | OpenContent c \<Rightarrow> False
      | ShowDiff a b c d \<Rightarrow> False
      | _ \<Rightarrow> True)"

text \<open>The events before the library is called: nothing is patched and nothing is written.\<close>

definition preparing :: "patch \<Rightarrow> event \<Rightarrow> bool" where
  "preparing p ev \<longleftrightarrow> allowed p ev \<and> \<not> isApplyPatch ev \<and> \<not> mutates ev"

text \<open>The events after the library was called.\<close>

definition finishing :: "patch \<Rightarrow> event \<Rightarrow> bool" where
  "finishing p ev \<longleftrightarrow> allowed p ev \<and> \<not> isApplyPatch ev \<and> \<not> isReadFile ev"

text \<open>The events that look at or change a file of the workspace.\<close>

definition usesFile :: "event \<Rightarrow> bool" where
  "usesFile ev =
     (case ev of
        Stat u \<Rightarrow> True | ReadFile u \<Rightarrow> True | WriteFile u c \<Rightarrow> True | Delete u \<Rightarrow> True
      | OpenTextDocument u \<Rightarrow> True | ShowTextDocument u \<Rightarrow> True | _ \<Rightarrow> False)"

text \<open>The events of the preview: notifications and untitled documents only.\<close>

definition previewing :: "event \<Rightarrow> bool" where
  "previewing ev \<longleftrightarrow> \<not> usesFile ev \<and> \<not> isApplyPatch ev"

section \<open>A host and patches for the examples\<close>

text \<open>
  A host with one workspace folder in which no call is rejected: the user accepts the
  proposed path for a new file, confirms the file that was found, and agrees to overwrite.
  The parser and the patch engine are given.
\<close>

definition exampleHost ::
  "(string \<Rightarrow> exn + patch list) \<Rightarrow> (string \<Rightarrow> patch \<Rightarrow> nat \<Rightarrow> exn + string option) \<Rightarrow> env" where
  "exampleHost parse engine =
     \<lparr>parsePatch = parse, applyPatch = engine, view = True,
      workspaceFolders = [''/ws''],
      joinPath = (\<lambda>u s. Inr (u @ ''/'' @ s)),
      uriFile = (\<lambda>s. Inr s),
      fsPath = (\<lambda>u. u),
      asRelativePath = (\<lambda>u. u),
      findFiles = (\<lambda>w g. Inr []),
      showInputBox = (\<lambda>w s d. Inr (Some d)),
      showQuickPick = (\<lambda>w items u d. Inr (Some ''Yes, Apply to this file'')),
      showQuickPickItems = (\<lambda>w items d. Inr None),
      showOpenDialog = (\<lambda>w d u. Inr None),
      showWarningModal = (\<lambda>w u d. Inr (Some ''Overwrite'')),
      fault = (\<lambda>w ev. None)\<rparr>"

text \<open>A text of lines, each ended by a line feed.\<close>

definition textOf :: "string list \<Rightarrow> string" where
  "textOf ls = concat (map (\<lambda>l. l @ [LF]) ls)"

definition exampleWorld :: "string list \<Rightarrow> world" where
  "exampleWorld ls = \<lparr>files = [''/ws/a.txt'' \<mapsto> File (textOf ls)], trace = []\<rparr>"

definition modifyPatch :: patch where
  "modifyPatch =
     \<lparr>oldFileName = Some ''a/a.txt'', newFileName = Some ''b/a.txt'',
      hunks = [\<lparr>oldStart = 1, oldLines = 3, newStart = 1, newLines = 3,
                lines = ['' a'', ''-b'', ''+B'', '' c'']\<rparr>]\<rparr>"

definition createPatch :: patch where
  "createPatch =
     \<lparr>oldFileName = Some ''/dev/null'', newFileName = Some ''b/newfile.txt'',
      hunks = [\<lparr>oldStart = 0, oldLines = 0, newStart = 1, newLines = 2,
                lines = [''+x'', ''+y'']\<rparr>]\<rparr>"

definition deletePatch :: patch where
  "deletePatch =
     \<lparr>oldFileName = Some ''a/a.txt'', newFileName = Some ''/dev/null'',
      hunks = [\<lparr>oldStart = 1, oldLines = 1, newStart = 0, newLines = 0,
                lines = [''-a'']\<rparr>]\<rparr>"

text \<open>A patch without file names and without hunks.\<close>

definition hunklessPatch :: patch where
  "hunklessPatch = \<lparr>oldFileName = None, newFileName = None, hunks = []\<rparr>"

text \<open>A patch whose context line ends in a carriage return, and a file with such lines.\<close>

definition crPatch :: patch where
  "crPatch =
     \<lparr>oldFileName = Some ''a/a.txt'', newFileName = Some ''b/a.txt'',
      hunks = [\<lparr>oldStart = 1, oldLines = 2, newStart = 1, newLines = 2,
                lines = ['' a'' @ [CR], ''-b'', ''+B'']\<rparr>]\<rparr>"

definition crWorld :: world where
  "crWorld =
     \<lparr>files = [''/ws/a.txt'' \<mapsto> File (''a'' @ [CR, LF] @ ''b'' @ [CR, LF])], trace = []\<rparr>"

definition emptyPatch :: patch where
  "emptyPatch = \<lparr>oldFileName = Some ''a/b.txt'', newFileName = Some ''b/b.txt'', hunks = []\<rparr>"

text \<open>Patch engines: one that rejects every patch, one that yields a given text.\<close>

definition rejecting :: "string \<Rightarrow> patch \<Rightarrow> nat \<Rightarrow> exn + string option" where
  "rejecting content p fuzz = Inr None"

definition yielding :: "string \<Rightarrow> string \<Rightarrow> patch \<Rightarrow> nat \<Rightarrow> exn + string option" where
  "yielding result content p fuzz = Inr (Some result)"

text \<open>Parsers: one that throws, one that returns given patches.\<close>

definition throwing :: "string \<Rightarrow> string \<Rightarrow> exn + patch list" where
  "throwing msg text = Inl (Exn [] ''Error'' msg)"

definition returning :: "patch list \<Rightarrow> string \<Rightarrow> exn + patch list" where
  "returning ps text = Inr ps"

text \<open>
  A pasted text with two file sections: a well-formed one for \<^verbatim>\<open>a.txt\<close> and one whose
  hunk holds a line that is no diff line.
\<close>

definition twoSections :: string where
  "twoSections = textOf
     [''--- a/a.txt'', ''+++ b/a.txt'', ''@@ -1,3 +1,3 @@'', '' a'', ''-b'', ''+B'', '' c'',
      ''--- a/b.txt'', ''+++ b/b.txt'', ''@@ -1 +1 @@'', ''?x'']"

text \<open>A diff inside a fence whose opening line has no language tag.\<close>

definition fencedUntagged :: string where
  "fencedUntagged = textOf
     [''```'', ''--- a/a.txt'', ''+++ b/a.txt'', ''@@ -1 +1 @@'', ''-a'', ''+b'', ''```'']"

text \<open>The events that neither change a file nor call the library.\<close>

definition calm :: "event \<Rightarrow> bool" where
  "calm ev \<longleftrightarrow> \<not> mutates ev \<and> \<not> isApplyPatch ev"

text \<open>The events the loop over the patches can add, whatever the patch.\<close>

definition applying :: "event \<Rightarrow> bool" where
  "applying ev =
     (case ev of
        Notify s n \<Rightarrow>
          (case n of ErrorParsing m \<Rightarrow> False | CouldNotParse \<Rightarrow> False | Summary a b c \<Rightarrow> False
           | _ \<Rightarrow> True)
      | PostParseError n \<Rightarrow> False
      | ApplyPatch c q f \<Rightarrow> f = 2 \<and> CR \<notin> set c \<and> (isNewFile q \<longrightarrow> c = [])
      | OpenContent c \<Rightarrow> False
      | ShowDiff a b c d \<Rightarrow> False
      | _ \<Rightarrow> True)"

text \<open>Notifications and messages to the webview.\<close>

definition reporting :: "event \<Rightarrow> bool" where
  "reporting ev = (case ev of Notify s n \<Rightarrow> True | PostParseError n \<Rightarrow> True | _ \<Rightarrow> False)"

section \<open>Line endings and reconstruction\<close>

lemma replace_as_one_pass: "replace_cr (replace_crlf s) = normalize_one_pass s"
  by (induction s rule: replace_crlf.induct) (auto simp: replace_cr_def)

lemma normalize_eq: "normalizeLineEndings s = normalize_one_pass s"
  by (cases s) (simp_all add: normalizeLineEndings_def replace_as_one_pass)

lemma no_cr_one_pass: "CR \<notin> set (normalize_one_pass s)"
  by (induction s rule: normalize_one_pass.induct) auto

lemma no_cr_normalized: "CR \<notin> set (normalizeLineEndings s)"
  by (simp add: normalize_eq no_cr_one_pass)

lemma fold_pushLine:
  "fold pushLine ls acc =
     (fst acc @ map (drop 1) (filter isOldLine ls), snd acc @ map (drop 1) (filter isNewLine ls))"
  by (induction ls arbitrary: acc) (auto simp: pushLine_def isOldLine_def isNewLine_def Let_def)

lemma fold_hunks:
  "fold (\<lambda>h acc. fold pushLine (lines h) acc) hs acc =
     (fst acc @ map (drop 1) (filter isOldLine (allLines hs)),
      snd acc @ map (drop 1) (filter isNewLine (allLines hs)))"
  by (induction hs arbitrary: acc) (auto simp: fold_pushLine allLines_def)

lemma contentLines_eq:
  "contentLines hs =
     (map (drop 1) (filter isOldLine (allLines hs)), map (drop 1) (filter isNewLine (allLines hs)))"
  by (simp add: contentLines_def fold_hunks)

lemma reconstruct_eq:
  "reconstruct hs =
     (normalizeLineEndings (join (map (drop 1) (filter isOldLine (allLines hs)))),
      normalizeLineEndings (join (map (drop 1) (filter isNewLine (allLines hs)))))"
  by (simp add: reconstruct_def contentLines_eq)

section \<open>Evaluating the examples\<close>

lemmas host_defs = bindH_def catchH_def retH_def throwH_def liftE_def ask_def notify_def emit_def
  hostcall_def stat_def readFile_def writeFile_def delete_def openTextDocument_def
  showTextDocument_def callApplyPatch_def postParseError_def fileNotFound_def

lemmas single_defs = applySinglePatch_def resolveTarget_def fileNames_def isNewFile_def
  isDeletedFile_def newFileTarget_def existingTarget_def findCandidates_def chooseCandidate_def
  chooseManually_def targetExists_def originalContent_def patchAndWrite_def writeResult_def
  applyToTarget_def reportError_def

lemmas string_defs = stripA_def stripB_def stripAB_def startsWith_def endsWith_def trim_def
  isWhiteSpace_def truthy_def orElse_def basename_def normalizeLineEndings_def replace_cr_def
  textOf_def

lemmas example_defs = exampleHost_def exampleWorld_def modifyPatch_def createPatch_def
  deletePatch_def emptyPatch_def hunklessPatch_def crPatch_def crWorld_def rejecting_def
  yielding_def throwing_def returning_def

section \<open>Reasoning about runs\<close>

subsection \<open>Extensions of the world\<close>

lemma ext_refl: "ext P w w"
  by (simp add: ext_def)

lemma ext_trans: "ext P w w1 \<Longrightarrow> ext P w1 w2 \<Longrightarrow> ext P w w2"
  unfolding ext_def by (elim exE conjE, rule_tac x="es @ esa" in exI) simp

lemma ext_mono: "ext P w w' \<Longrightarrow> (\<And>ev. P ev \<Longrightarrow> Q ev) \<Longrightarrow> ext Q w w'"
  unfolding ext_def list_all_iff by blast

lemma ext_emit: "P ev \<Longrightarrow> \<not> mutates ev \<Longrightarrow> ext P w (emit ev w)"
  by (simp add: ext_def emit_def)

lemma ext_files: "ext P w w' \<Longrightarrow> (\<And>ev. P ev \<Longrightarrow> \<not> mutates ev) \<Longrightarrow> files w' = files w"
  unfolding ext_def list_all_iff by blast

lemma ext_events: "ext P w w' \<Longrightarrow> \<exists>es. trace w' = trace w @ es \<and> (\<forall>ev\<in>set es. P ev)"
  unfolding ext_def list_all_iff by blast

subsection \<open>Rules for the computations\<close>

lemma traced_retH: "traced P (retH x)" by (simp add: traced_def retH_def ext_refl)
lemma traced_throwH: "traced P (throwH x)" by (simp add: traced_def throwH_def ext_refl)
lemma traced_liftE: "traced P (liftE x)" by (simp add: traced_def liftE_def ext_refl)
lemma traced_ask: "traced P (ask x)" by (simp add: traced_def ask_def ext_refl)
lemma traced_notify: "P (Notify s n) \<Longrightarrow> traced P (notify s n)"
  by (simp add: traced_def notify_def ext_emit mutates_def)

lemma traced_bindH:
  assumes "traced P m" "\<And>x. traced P (f x)" shows "traced P (bindH m f)"
  unfolding traced_def
proof
  fix w
  obtain r w1 where m: "m w = (r, w1)" by (cases "m w")
  with assms(1) have e1: "ext P w w1" unfolding traced_def by (metis snd_conv)
  show "ext P w (snd (bindH m f w))"
  proof (cases r)
    case (Inl e) with m e1 show ?thesis by (simp add: bindH_def)
  next
    case (Inr x)
    from assms(2)[of x] have "ext P w1 (snd (f x w1))" unfolding traced_def by blast
    with Inr m e1 show ?thesis by (simp add: bindH_def ext_trans)
  qed
qed

lemma traced_catchH:
  assumes "traced P m" "\<And>x. traced P (h x)" shows "traced P (catchH m h)"
  unfolding traced_def
proof
  fix w
  obtain r w1 where m: "m w = (r, w1)" by (cases "m w")
  with assms(1) have e1: "ext P w w1" unfolding traced_def by (metis snd_conv)
  show "ext P w (snd (catchH m h w))"
  proof (cases r)
    case (Inr e) with m e1 show ?thesis by (simp add: catchH_def)
  next
    case (Inl x)
    from assms(2)[of x] have "ext P w1 (snd (h x w1))" unfolding traced_def by blast
    with Inl m e1 show ?thesis by (simp add: catchH_def ext_trans)
  qed
qed

lemma traced_hostcall:
  assumes "P ev" "\<not> mutates ev" "traced P run" shows "traced P (hostcall env ev run)"
  unfolding traced_def
proof
  fix w
  have a: "ext P w (emit ev w)" using assms(1,2) by (rule ext_emit)
  have b: "ext P (emit ev w) (snd (run (emit ev w)))" using assms(3) unfolding traced_def by blast
  show "ext P w (snd (hostcall env ev run w))"
    using a ext_trans[OF a b] by (simp add: hostcall_def split: option.splits)
qed

lemma traced_stat: "P (Stat u) \<Longrightarrow> traced P (stat env u)"
  unfolding stat_def
  by (rule traced_hostcall) (auto simp: mutates_def traced_def ext_refl split: option.splits node.splits)

lemma traced_readFile: "P (ReadFile u) \<Longrightarrow> traced P (readFile env u)"
  unfolding readFile_def
  by (rule traced_hostcall) (auto simp: mutates_def traced_def ext_refl split: option.splits node.splits)

lemma traced_openTextDocument: "P (OpenTextDocument u) \<Longrightarrow> traced P (openTextDocument env u)"
  unfolding openTextDocument_def by (rule traced_hostcall) (auto simp: mutates_def traced_retH)

lemma traced_showTextDocument: "P (ShowTextDocument u) \<Longrightarrow> traced P (showTextDocument env u)"
  unfolding showTextDocument_def by (rule traced_hostcall) (auto simp: mutates_def traced_retH)

lemma traced_writeFile: "P (WriteFile u c) \<Longrightarrow> traced P (writeFile env u c)"
  unfolding traced_def writeFile_def hostcall_def ext_def
  by (auto simp: emit_def mutates_def split: option.splits node.splits)

lemma traced_delete: "P (Delete u) \<Longrightarrow> traced P (delete env u)"
  unfolding traced_def delete_def hostcall_def ext_def
  by (auto simp: emit_def mutates_def split: option.splits node.splits)

lemma traced_callApplyPatch: "P (ApplyPatch c p f) \<Longrightarrow> traced P (callApplyPatch env c p f)"
  by (simp add: traced_def callApplyPatch_def ext_emit mutates_def)

lemmas traced_rules = traced_retH traced_throwH traced_liftE traced_ask traced_notify
  traced_bindH traced_catchH traced_stat traced_readFile traced_writeFile traced_delete
  traced_openTextDocument traced_showTextDocument traced_callApplyPatch

lemma preparing_simps:
  "preparing p (Notify s (CreationCancelled a))"
  "preparing p (Notify s (ApplicationCancelled a))"
  "preparing p (Notify s (NoFileSelected a))"
  "preparing p (Notify s (NoValidFileName x y))"
  "preparing p (Notify s (TargetIsDirectory u a))"
  "preparing p (Notify s (CancelledExistingFile u a))"
  "preparing p (Notify s (TargetNotFound u a))"
  "preparing p (Stat u)"
  "preparing p (ReadFile u) = (\<not> isNewFile p)"
  by (simp_all add: preparing_def allowed_def isApplyPatch_def mutates_def)

lemma traced_newFileTarget: "traced (preparing p) (newFileTarget env search)"
  unfolding newFileTarget_def
  by (auto intro!: traced_rules simp: preparing_simps split: list.split)

lemma traced_findCandidates: "traced (preparing p) (findCandidates env ws search)"
  unfolding findCandidates_def
  by (auto intro!: traced_rules simp: preparing_simps)

lemma traced_chooseCandidate: "traced (preparing p) (chooseCandidate env found display)"
  unfolding chooseCandidate_def
  by (auto intro!: traced_rules simp: preparing_simps split: list.split option.split)

lemma traced_chooseManually: "traced (preparing p) (chooseManually env search display)"
  unfolding chooseManually_def Let_def
  by (auto intro!: traced_rules simp: preparing_simps split: list.split option.split)

lemma traced_existingTarget: "traced (preparing p) (existingTarget env search display)"
  unfolding existingTarget_def
  by (auto intro!: traced_rules traced_findCandidates traced_chooseCandidate traced_chooseManually
      split: list.split option.split)

lemma traced_resolveTarget: "traced (preparing p) (resolveTarget env p)"
  unfolding resolveTarget_def
  by (auto intro!: traced_rules traced_newFileTarget traced_existingTarget
      simp: preparing_simps split: option.split)

lemma traced_targetExists: "traced (preparing p) (targetExists env target display)"
  unfolding targetExists_def
  by (auto intro!: traced_rules simp: preparing_simps)

lemma traced_originalContent: "traced (preparing p) (originalContent env p target display b)"
  unfolding originalContent_def
  by (auto intro!: traced_rules simp: preparing_simps)


lemma traced_ext: "traced P m \<Longrightarrow> m w = (r, w') \<Longrightarrow> ext P w w'"
  unfolding traced_def by (metis snd_conv)

lemma finishing_simps:
  "finishing p (Notify s (FileDeleted u a))"
  "finishing p (Notify s (UpdatedInsteadOfDeleted u a))"
  "finishing p (Notify s (PatchApplied u a))"
  "finishing p (Notify s (CreatedEmpty u a))"
  "finishing p (Notify s (ErrorApplying u a b))"
  "finishing p (Notify s (FailedToApply u a))"
  "finishing p (WriteFile u c)"
  "finishing p (Delete u)"
  "finishing p (OpenTextDocument u)"
  "finishing p (ShowTextDocument u)"
  by (simp_all add: finishing_def allowed_def isApplyPatch_def isReadFile_def)

lemma traced_writeResult: "traced (finishing p) (writeResult env p t d res)"
  unfolding writeResult_def
  by (auto intro!: traced_rules simp: finishing_simps)

lemma traced_reportError: "traced (finishing p) (reportError t d e)"
  unfolding reportError_def
  by (auto intro!: traced_rules simp: finishing_simps)

lemma catchH_bindH:
  "catchH (bindH m f) h w =
     (case m w of (Inl e, w1) \<Rightarrow> h e w1 | (Inr x, w1) \<Rightarrow> catchH (f x) h w1)"
  by (simp add: catchH_def bindH_def split: prod.splits sum.splits)

lemma catchH_retH: "catchH (retH x) h w = (Inr x, w)"
  by (simp add: catchH_def retH_def)

lemma reportError_eq:
  "reportError t d e w = (Inr False, emit (Notify ErrorMessage (ErrorApplying t d (excMessage e))) w)"
  by (simp add: reportError_def bindH_def notify_def retH_def)

lemma patchAndWrite_eq:
  "catchH (patchAndWrite env p t d orig) (reportError t d) w =
     (case applyPatch env (normalizeLineEndings orig) p 2 of
        Inl e \<Rightarrow> (Inr False, emit (Notify ErrorMessage (ErrorApplying t d (excMessage e)))
                    (emit (ApplyPatch (normalizeLineEndings orig) p 2) w))
      | Inr None \<Rightarrow> (Inr False, emit (Notify ErrorMessage (FailedToApply t d))
                    (emit (ApplyPatch (normalizeLineEndings orig) p 2) w))
      | Inr (Some res) \<Rightarrow> catchH (writeResult env p t d res) (reportError t d)
                    (emit (ApplyPatch (normalizeLineEndings orig) p 2) w))"
  by (simp add: patchAndWrite_def catchH_bindH callApplyPatch_def reportError_eq
      catchH_retH notify_def split: sum.splits option.splits)

lemma originalContent_new:
  "originalContent env p t d b w = (Inr (Some orig), w1) \<Longrightarrow> isNewFile p \<Longrightarrow> orig = []"
  by (auto simp: originalContent_def bindH_def ask_def retH_def notify_def
      split: if_splits sum.splits prod.splits)

lemma preparing_ErrorApplying: "preparing p (Notify s (ErrorApplying u a b))"
  by (simp add: preparing_def allowed_def isApplyPatch_def mutates_def)

lemma applyToTarget_cases:
  assumes "applyToTarget env p t d w = (r, w')"
  shows "(ext (preparing p) w w' \<and> r = Inr False) \<or>
         (\<exists>orig w1. ext (preparing p) w w1 \<and> (isNewFile p \<longrightarrow> orig = []) \<and>
            catchH (patchAndWrite env p t d orig) (reportError t d) w1 = (r, w'))"
proof -
  obtain r1 w1 where a: "targetExists env t d w = (r1, w1)" by force
  have e1: "ext (preparing p) w w1" by (rule traced_ext[OF traced_targetExists a])
  have rep: "\<And>e v. ext (preparing p) v (emit (Notify ErrorMessage (ErrorApplying t d (excMessage e))) v)"
    by (rule ext_emit) (simp_all add: preparing_ErrorApplying mutates_def)
  show ?thesis
  proof (cases r1)
    case (Inl e)
    with assms a have "r = Inr False" "w' = emit (Notify ErrorMessage (ErrorApplying t d (excMessage e))) w1"
      by (simp_all add: applyToTarget_def catchH_bindH reportError_eq)
    with e1 rep show ?thesis by (metis ext_trans)
  next
    case (Inr ex)
    show ?thesis
    proof (cases ex)
      case None
      with Inr assms a have "r = Inr False" "w' = w1"
        by (simp_all add: applyToTarget_def catchH_bindH catchH_retH)
      with e1 show ?thesis by simp
    next
      case (Some b)
      obtain r2 w2 where c: "originalContent env p t d b w1 = (r2, w2)" by force
      have e2: "ext (preparing p) w w2"
        by (rule ext_trans[OF e1 traced_ext[OF traced_originalContent c]])
      from Some Inr assms a c have run:
        "(case r2 of Inl e \<Rightarrow> reportError t d e w2
          | Inr content \<Rightarrow> catchH (case content of None \<Rightarrow> retH False
               | Some orig \<Rightarrow> patchAndWrite env p t d orig) (reportError t d) w2) = (r, w')"
        by (simp add: applyToTarget_def catchH_bindH)
      show ?thesis
      proof (cases r2)
        case (Inl e)
        with run have "r = Inr False" "w' = emit (Notify ErrorMessage (ErrorApplying t d (excMessage e))) w2"
          by (simp_all add: reportError_eq)
        with e2 rep show ?thesis by (metis ext_trans)
      next
        case (Inr content)
        show ?thesis
        proof (cases content)
          case None
          with Inr run have "r = Inr False" "w' = w2" by (simp_all add: catchH_retH)
          with e2 show ?thesis by simp
        next
          case (Some orig)
          with Inr run have "catchH (patchAndWrite env p t d orig) (reportError t d) w2 = (r, w')"
            by simp
          moreover have "isNewFile p \<longrightarrow> orig = []"
            using originalContent_new c Inr Some by blast
          ultimately show ?thesis using e2 by blast
        qed
      qed
    qed
  qed
qed

lemma applySinglePatch_cases:
  assumes "applySinglePatch env p w = (r, w')"
  shows "(ext (preparing p) w w' \<and> r \<noteq> Inr True) \<or>
         (\<exists>t d orig w1. ext (preparing p) w w1 \<and> (isNewFile p \<longrightarrow> orig = []) \<and>
            catchH (patchAndWrite env p t d orig) (reportError t d) w1 = (r, w'))"
proof -
  obtain r0 w0 where a: "resolveTarget env p w = (r0, w0)" by force
  have e0: "ext (preparing p) w w0" by (rule traced_ext[OF traced_resolveTarget a])
  show ?thesis
  proof (cases r0)
    case (Inl e)
    with assms a e0 show ?thesis by (auto simp: applySinglePatch_def bindH_def)
  next
    case (Inr x)
    show ?thesis
    proof (cases x)
      case None
      with Inr assms a e0 show ?thesis by (auto simp: applySinglePatch_def bindH_def retH_def)
    next
      case (Some td)
      obtain t d where td: "td = (t, d)" by (cases td)
      with Some Inr assms a have "applyToTarget env p t d w0 = (r, w')"
        by (simp add: applySinglePatch_def bindH_def)
      from applyToTarget_cases[OF this] e0 show ?thesis
        by (metis ext_trans sum.inject(2))
    qed
  qed
qed


lemma ext_eventsD:
  assumes "ext P w w'" "trace w' = trace w @ es"
  shows "(\<forall>ev\<in>set es. P ev) \<and> ((\<forall>ev\<in>set es. \<not> mutates ev) \<longrightarrow> files w' = files w)"
  using assms unfolding ext_def list_all_iff by auto

lemma preparing_files: "ext (preparing p) w w' \<Longrightarrow> files w' = files w"
  by (erule ext_files) (simp add: preparing_def)

lemma after_engine:
  assumes "catchH (patchAndWrite env p t d orig) (reportError t d) w1 = (r, w')"
  shows "\<exists>es2. trace w' = trace w1 @ ApplyPatch (normalizeLineEndings orig) p 2 # es2 \<and>
           (\<forall>ev\<in>set es2. finishing p ev) \<and>
           (case applyPatch env (normalizeLineEndings orig) p 2 of
              Inl e \<Rightarrow> r = Inr False \<and> files w' = files w1 \<and>
                       es2 = [Notify ErrorMessage (ErrorApplying t d (excMessage e))]
            | Inr None \<Rightarrow> r = Inr False \<and> files w' = files w1 \<and>
                       es2 = [Notify ErrorMessage (FailedToApply t d)]
            | Inr (Some res) \<Rightarrow>
                catchH (writeResult env p t d res) (reportError t d)
                  (emit (ApplyPatch (normalizeLineEndings orig) p 2) w1) = (r, w'))"
proof (cases "applyPatch env (normalizeLineEndings orig) p 2")
  case (Inl e)
  with assms show ?thesis
    by (auto simp: patchAndWrite_eq emit_def finishing_simps)
next
  case (Inr x)
  show ?thesis
  proof (cases x)
    case None
    with Inr assms show ?thesis
      by (auto simp: patchAndWrite_eq emit_def finishing_simps)
  next
    case (Some res)
    with Inr assms have run: "catchH (writeResult env p t d res) (reportError t d)
        (emit (ApplyPatch (normalizeLineEndings orig) p 2) w1) = (r, w')"
      by (simp add: patchAndWrite_eq)
    have "traced (finishing p) (catchH (writeResult env p t d res) (reportError t d))"
      by (intro traced_catchH traced_writeResult traced_reportError)
    from traced_ext[OF this run] obtain es2 where
      "trace w' = trace (emit (ApplyPatch (normalizeLineEndings orig) p 2) w1) @ es2"
      "\<forall>ev\<in>set es2. finishing p ev"
      unfolding ext_def list_all_iff by blast
    with run Inr Some show ?thesis by (simp add: emit_def)
  qed
qed

lemma applySinglePatch_anatomy:
  assumes run: "applySinglePatch env p w = (r, w')" and tr: "trace w' = trace w @ es"
  shows "((\<forall>ev\<in>set es. preparing p ev) \<and> files w' = files w \<and> r \<noteq> Inr True) \<or>
         (\<exists>t d orig w1 es1 es2.
            es = es1 @ ApplyPatch (normalizeLineEndings orig) p 2 # es2 \<and>
            (\<forall>ev\<in>set es1. preparing p ev) \<and> (\<forall>ev\<in>set es2. finishing p ev) \<and>
            trace w1 = trace w @ es1 \<and> files w1 = files w \<and> (isNewFile p \<longrightarrow> orig = []) \<and>
            (case applyPatch env (normalizeLineEndings orig) p 2 of
               Inl e \<Rightarrow> r = Inr False \<and> files w' = files w \<and>
                        es2 = [Notify ErrorMessage (ErrorApplying t d (excMessage e))]
             | Inr None \<Rightarrow> r = Inr False \<and> files w' = files w \<and>
                        es2 = [Notify ErrorMessage (FailedToApply t d)]
             | Inr (Some res) \<Rightarrow>
                 catchH (writeResult env p t d res) (reportError t d)
                   (emit (ApplyPatch (normalizeLineEndings orig) p 2) w1) = (r, w')))"
  using applySinglePatch_cases[OF run]
proof (elim disjE conjE exE)
  assume e: "ext (preparing p) w w'" and r: "r \<noteq> Inr True"
  from ext_eventsD[OF e tr] preparing_files[OF e] r show ?thesis by blast
next
  fix t d orig w1
  assume e: "ext (preparing p) w w1" and new: "isNewFile p \<longrightarrow> orig = []"
    and rest: "catchH (patchAndWrite env p t d orig) (reportError t d) w1 = (r, w')"
  from e obtain es1 where es1: "trace w1 = trace w @ es1" "\<forall>ev\<in>set es1. preparing p ev"
    unfolding ext_def list_all_iff by blast
  from after_engine[OF rest] obtain es2 where es2:
    "trace w' = trace w1 @ ApplyPatch (normalizeLineEndings orig) p 2 # es2"
    "\<forall>ev\<in>set es2. finishing p ev"
    "case applyPatch env (normalizeLineEndings orig) p 2 of
              Inl e \<Rightarrow> r = Inr False \<and> files w' = files w1 \<and>
                       es2 = [Notify ErrorMessage (ErrorApplying t d (excMessage e))]
            | Inr None \<Rightarrow> r = Inr False \<and> files w' = files w1 \<and>
                       es2 = [Notify ErrorMessage (FailedToApply t d)]
            | Inr (Some res) \<Rightarrow>
                catchH (writeResult env p t d res) (reportError t d)
                  (emit (ApplyPatch (normalizeLineEndings orig) p 2) w1) = (r, w')"
    by blast
  have f1: "files w1 = files w" by (rule preparing_files[OF e])
  from es1 es2(1) tr have es: "es = es1 @ ApplyPatch (normalizeLineEndings orig) p 2 # es2"
    by simp
  have "es = es1 @ ApplyPatch (normalizeLineEndings orig) p 2 # es2 \<and>
            (\<forall>ev\<in>set es1. preparing p ev) \<and> (\<forall>ev\<in>set es2. finishing p ev) \<and>
            trace w1 = trace w @ es1 \<and> files w1 = files w \<and> (isNewFile p \<longrightarrow> orig = []) \<and>
            (case applyPatch env (normalizeLineEndings orig) p 2 of
               Inl e \<Rightarrow> r = Inr False \<and> files w' = files w \<and>
                        es2 = [Notify ErrorMessage (ErrorApplying t d (excMessage e))]
             | Inr None \<Rightarrow> r = Inr False \<and> files w' = files w \<and>
                        es2 = [Notify ErrorMessage (FailedToApply t d)]
             | Inr (Some res) \<Rightarrow>
                 catchH (writeResult env p t d res) (reportError t d)
                   (emit (ApplyPatch (normalizeLineEndings orig) p 2) w1) = (r, w'))"
    using es es1 es2(2,3) f1 new by (simp split: sum.splits option.splits)
  then show ?thesis by blast
qed

lemma the_one_call:
  assumes "es = es1 @ ApplyPatch c0 p 2 # es2"
    "\<forall>ev\<in>set es1. preparing p ev" "\<forall>ev\<in>set es2. finishing p ev"
    "ApplyPatch c q f \<in> set es"
  shows "c = c0 \<and> q = p \<and> f = 2"
  using assms by (auto simp: preparing_def finishing_def isApplyPatch_def)

section \<open>What one patch and the loop over the patches add\<close>

lemma traced_mono: "traced P m \<Longrightarrow> (\<And>ev. P ev \<Longrightarrow> Q ev) \<Longrightarrow> traced Q m"
  unfolding traced_def by (blast intro: ext_mono)

lemma traced_patchAndWrite:
  assumes "\<And>ev. finishing p ev \<Longrightarrow> Q ev" "Q (ApplyPatch (normalizeLineEndings orig) p 2)"
  shows "traced Q (catchH (patchAndWrite env p t d orig) (reportError t d))"
  unfolding patchAndWrite_def
  by (auto intro!: traced_catchH traced_bindH traced_callApplyPatch traced_notify traced_retH
        traced_mono[OF traced_writeResult] traced_mono[OF traced_reportError] assms
      simp: finishing_simps split: option.split)

lemma preparing_allowed: "preparing p ev \<Longrightarrow> allowed p ev"
  by (simp add: preparing_def)

lemma finishing_allowed: "finishing p ev \<Longrightarrow> allowed p ev"
  by (simp add: finishing_def)

lemma applySinglePatch_allowed:
  assumes run: "applySinglePatch env p w = (r, w')"
  shows "ext (allowed p) w w'"
  using applySinglePatch_cases[OF run]
proof (elim disjE conjE exE)
  assume "ext (preparing p) w w'"
  then show ?thesis by (rule ext_mono) (rule preparing_allowed)
next
  fix t d orig w1
  assume e: "ext (preparing p) w w1" and new: "isNewFile p \<longrightarrow> orig = []"
    and rest: "catchH (patchAndWrite env p t d orig) (reportError t d) w1 = (r, w')"
  have "allowed p (ApplyPatch (normalizeLineEndings orig) p 2)"
  proof (cases "isNewFile p")
    case True
    with new show ?thesis by (simp add: allowed_def normalizeLineEndings_def)
  next
    case False
    then show ?thesis by (simp add: allowed_def no_cr_normalized)
  qed
  from traced_ext[OF traced_patchAndWrite[of p "allowed p", OF finishing_allowed this] rest]
  have "ext (allowed p) w1 w'" .
  moreover have "ext (allowed p) w w1"
    using e by (rule ext_mono) (rule preparing_allowed)
  ultimately show ?thesis by (blast intro: ext_trans)
qed

lemma allowed_applying: "allowed p ev \<Longrightarrow> applying ev"
  by (auto simp: allowed_def applying_def split: event.splits notice.splits)

lemma applying_notices:
  "applying (Notify s (SkippingNoHunks a))" "applying (Notify s (CriticalError a b))"
  by (simp_all add: applying_def)

lemma applyLoop_ext: "applyLoop env ps counts w = (counts', w') \<Longrightarrow> ext applying w w'"
proof (induction ps arbitrary: counts w)
  case Nil
  then show ?case by (simp add: ext_refl)
next
  case (Cons p ps)
  obtain a s e where c: "counts = (a, s, e)" by (cases counts)
  show ?case
  proof (cases "hunks p = []")
    case True
    with Cons.prems c have
      "applyLoop env ps (a, s + 1, e) (emit (Notify InformationMessage (SkippingNoHunks (patchName p))) w) = (counts', w')"
      by simp
    from Cons.IH[OF this] show ?thesis
      using ext_emit[of applying "Notify InformationMessage (SkippingNoHunks (patchName p))" w]
      by (auto intro: ext_trans simp: applying_notices mutates_def)
  next
    case False
    obtain r w1 where run: "applySinglePatch env p w = (r, w1)" by force
    have e1: "ext applying w w1"
      by (rule ext_mono[OF applySinglePatch_allowed[OF run] allowed_applying])
    show ?thesis
    proof (cases r)
      case (Inl err)
      with False Cons.prems c run have
        "applyLoop env ps (a, s, e + 1) (emit (Notify ErrorMessage (CriticalError (patchName p) (excMessage err))) w1) = (counts', w')"
        by simp
      from Cons.IH[OF this] have
        "ext applying (emit (Notify ErrorMessage (CriticalError (patchName p) (excMessage err))) w1) w'" .
      moreover have "ext applying w1 (emit (Notify ErrorMessage (CriticalError (patchName p) (excMessage err))) w1)"
        by (rule ext_emit) (simp_all add: applying_notices mutates_def)
      ultimately show ?thesis using e1 by (blast intro: ext_trans)
    next
      case (Inr b)
      with False Cons.prems c run have
        "applyLoop env ps (if b then (a + 1, s, e) else (a, s + 1, e)) w1 = (counts', w')"
        by (cases b) simp_all
      from Cons.IH[OF this] e1 show ?thesis by (blast intro: ext_trans)
    qed
  qed
qed

lemma applyLoop_counts:
  "applyLoop env ps (a, s, e) w = ((a', s', e'), w') \<Longrightarrow>
     a' + s' + e' = a + s + e + length ps \<and> a \<le> a' \<and> s \<le> s' \<and> e \<le> e'"
proof (induction ps arbitrary: a s e w)
  case Nil
  then show ?case by simp
next
  case (Cons p ps)
  show ?case
  proof (cases "hunks p = []")
    case True
    with Cons.prems have
      "applyLoop env ps (a, s + 1, e) (emit (Notify InformationMessage (SkippingNoHunks (patchName p))) w) = ((a', s', e'), w')"
      by simp
    from Cons.IH[OF this] show ?thesis by simp
  next
    case False
    obtain r w1 where run: "applySinglePatch env p w = (r, w1)" by force
    show ?thesis
    proof (cases r)
      case (Inl err)
      with False Cons.prems run have
        "applyLoop env ps (a, s, e + 1) (emit (Notify ErrorMessage (CriticalError (patchName p) (excMessage err))) w1) = ((a', s', e'), w')"
        by simp
      from Cons.IH[OF this] show ?thesis by simp
    next
      case (Inr b)
      show ?thesis
      proof (cases b)
        case True
        with Inr False Cons.prems run have "applyLoop env ps (a + 1, s, e) w1 = ((a', s', e'), w')"
          by simp
        from Cons.IH[OF this] show ?thesis by simp
      next
        case False': False
        with Inr False Cons.prems run have "applyLoop env ps (a, s + 1, e) w1 = ((a', s', e'), w')"
          by simp
        from Cons.IH[OF this] show ?thesis by simp
      qed
    qed
  qed
qed

section \<open>What a session adds\<close>

lemma reporting_not_mutates: "reporting ev \<Longrightarrow> \<not> mutates ev"
  by (auto simp: reporting_def mutates_def split: event.splits)

lemma reporting_simps: "reporting (Notify s n)" "reporting (PostParseError n)"
  by (simp_all add: reporting_def)

lemma ext_report: "reporting ev \<Longrightarrow> ext (\<lambda>ev. applying ev \<or> reporting ev) w (emit ev w)"
  by (rule ext_emit) (simp_all add: reporting_not_mutates)

lemma ext_post:
  "ext (\<lambda>ev. applying ev \<or> reporting ev) w (snd (postParseError env n w))"
  by (simp add: postParseError_def ext_refl ext_report reporting_simps)

lemma summary_reporting: "reporting (summary counts)"
  by (cases counts) (simp add: summary_def reporting_def)

lemma applyAll_ext:
  "ext (\<lambda>ev. applying ev \<or> reporting ev) w (applyAllPatchesToFiles env raw w)"
proof (cases "cleanDiffInput raw = []")
  case True
  then show ?thesis by (simp add: applyAllPatchesToFiles_def ext_report reporting_simps)
next
  case clean: False
  show ?thesis
  proof (cases "parsePatch env (cleanDiffInput raw)")
    case (Inl e)
    with clean have "applyAllPatchesToFiles env raw w =
        snd (postParseError env (ErrorParsing (excMessage e))
               (emit (Notify ErrorMessage (ErrorParsing (excMessage e))) w))"
      by (simp add: applyAllPatchesToFiles_def)
    then show ?thesis
      using ext_report[of "Notify ErrorMessage (ErrorParsing (excMessage e))" w] ext_post
      by (auto intro: ext_trans simp: reporting_simps)
  next
    case (Inr ps)
    show ?thesis
    proof (cases "ps = []")
      case True
      with clean Inr have "applyAllPatchesToFiles env raw w =
        snd (postParseError env CouldNotParse (emit (Notify ErrorMessage CouldNotParse) w))"
        by (simp add: applyAllPatchesToFiles_def)
      then show ?thesis
        using ext_report[of "Notify ErrorMessage CouldNotParse" w] ext_post
        by (auto intro: ext_trans simp: reporting_simps)
    next
      case False
      obtain counts w1 where loop: "applyLoop env ps (0, 0, 0) w = (counts, w1)"
        by (metis surj_pair)
      with clean Inr False have "applyAllPatchesToFiles env raw w = emit (summary counts) w1"
        by (simp add: applyAllPatchesToFiles_def)
      moreover have "ext (\<lambda>ev. applying ev \<or> reporting ev) w w1"
        using applyLoop_ext[OF loop] by (rule ext_mono) simp
      ultimately show ?thesis
        using ext_report[OF summary_reporting, of w1 counts] by (auto intro: ext_trans)
    qed
  qed
qed

lemma callApplyPatch_other:
  "g c p 2 = applyPatch env c p 2 \<Longrightarrow>
     callApplyPatch (env\<lparr>applyPatch := g\<rparr>) c p 2 = callApplyPatch env c p 2"
  by (simp add: callApplyPatch_def)

lemma prims_other:
  "stat (env\<lparr>applyPatch := g\<rparr>) = stat env"
  "readFile (env\<lparr>applyPatch := g\<rparr>) = readFile env"
  "writeFile (env\<lparr>applyPatch := g\<rparr>) = writeFile env"
  "delete (env\<lparr>applyPatch := g\<rparr>) = delete env"
  "openTextDocument (env\<lparr>applyPatch := g\<rparr>) = openTextDocument env"
  "showTextDocument (env\<lparr>applyPatch := g\<rparr>) = showTextDocument env"
  by (simp_all add: fun_eq_iff stat_def readFile_def writeFile_def delete_def
      openTextDocument_def showTextDocument_def hostcall_def)

lemma newFileTarget_other: "newFileTarget (env\<lparr>applyPatch := g\<rparr>) = newFileTarget env"
  by (simp add: fun_eq_iff newFileTarget_def
      cong: if_cong list.case_cong option.case_cong sum.case_cong)

lemma findCandidates_other: "findCandidates (env\<lparr>applyPatch := g\<rparr>) = findCandidates env"
  by (simp add: fun_eq_iff findCandidates_def prims_other
      cong: if_cong list.case_cong option.case_cong sum.case_cong)

lemma chooseCandidate_other: "chooseCandidate (env\<lparr>applyPatch := g\<rparr>) = chooseCandidate env"
  by (simp add: fun_eq_iff chooseCandidate_def
      cong: if_cong list.case_cong option.case_cong sum.case_cong)

lemma chooseManually_other: "chooseManually (env\<lparr>applyPatch := g\<rparr>) = chooseManually env"
  by (simp add: fun_eq_iff chooseManually_def
      cong: if_cong list.case_cong option.case_cong sum.case_cong)

lemma existingTarget_other: "existingTarget (env\<lparr>applyPatch := g\<rparr>) = existingTarget env"
  by (simp add: fun_eq_iff existingTarget_def findCandidates_other chooseCandidate_other
      chooseManually_other
      cong: if_cong list.case_cong option.case_cong sum.case_cong)

lemma resolveTarget_other: "resolveTarget (env\<lparr>applyPatch := g\<rparr>) = resolveTarget env"
  by (simp add: fun_eq_iff resolveTarget_def newFileTarget_other existingTarget_other
      cong: if_cong list.case_cong option.case_cong sum.case_cong)

lemma targetExists_other: "targetExists (env\<lparr>applyPatch := g\<rparr>) = targetExists env"
  by (simp add: fun_eq_iff targetExists_def prims_other
      cong: if_cong list.case_cong option.case_cong sum.case_cong)

lemma originalContent_other: "originalContent (env\<lparr>applyPatch := g\<rparr>) = originalContent env"
  by (simp add: fun_eq_iff originalContent_def prims_other
      cong: if_cong list.case_cong option.case_cong sum.case_cong)

lemma writeResult_other: "writeResult (env\<lparr>applyPatch := g\<rparr>) = writeResult env"
  by (simp add: fun_eq_iff writeResult_def prims_other
      cong: if_cong list.case_cong option.case_cong sum.case_cong)

lemma patchAndWrite_other:
  assumes "\<forall>c q. g c q 2 = applyPatch env c q 2"
  shows "patchAndWrite (env\<lparr>applyPatch := g\<rparr>) = patchAndWrite env"
  using assms
  by (simp add: fun_eq_iff patchAndWrite_def writeResult_other callApplyPatch_other
      cong: if_cong list.case_cong option.case_cong sum.case_cong)

lemma applyToTarget_other:
  assumes "\<forall>c q. g c q 2 = applyPatch env c q 2"
  shows "applyToTarget (env\<lparr>applyPatch := g\<rparr>) = applyToTarget env"
  using assms
  by (simp add: fun_eq_iff applyToTarget_def targetExists_other originalContent_other
      patchAndWrite_other cong: option.case_cong)

lemma applySinglePatch_other:
  assumes "\<forall>c q. g c q 2 = applyPatch env c q 2"
  shows "applySinglePatch (env\<lparr>applyPatch := g\<rparr>) = applySinglePatch env"
  using assms
  by (simp add: fun_eq_iff applySinglePatch_def resolveTarget_other applyToTarget_other
      cong: option.case_cong)

lemma applyLoop_other:
  assumes "\<forall>c q. g c q 2 = applyPatch env c q 2"
  shows "applyLoop (env\<lparr>applyPatch := g\<rparr>) ps counts w = applyLoop env ps counts w"
proof (induction ps arbitrary: counts w)
  case Nil
  show ?case by simp
next
  case (Cons p ps)
  obtain a s e where c: "counts = (a, s, e)" by (cases counts)
  show ?case
    unfolding c applyLoop.simps applySinglePatch_other[where g=g and env=env, OF assms] Cons.IH ..
qed

lemma applyAll_other:
  assumes "\<forall>c q. g c q 2 = applyPatch env c q 2"
  shows "applyAllPatchesToFiles (env\<lparr>applyPatch := g\<rparr>) raw w = applyAllPatchesToFiles env raw w"
  unfolding applyAllPatchesToFiles_def applyLoop_other[where g=g and env=env, OF assms]
    postParseError_def
  by (simp add: Let_def cong: if_cong sum.case_cong)

section \<open>Two sessions on the example host\<close>

text \<open>
  The pasted text with two sections, on a parser that throws at the line that is no diff
  line, and on one that returns the well-formed section.
\<close>

lemma clean_twoSections: "cleanDiffInput twoSections \<noteq> []"
  by (simp add: cleanDiffInput_def twoSections_def string_defs)

lemma strict_session:
  "applyAllPatchesToFiles
     (exampleHost (throwing ''Unknown line 11'') (yielding (textOf [''a'', ''B'', ''c''])))
     twoSections (exampleWorld [''a'', ''b'', ''c'']) =
   \<lparr>files = [''/ws/a.txt'' \<mapsto> File (textOf [''a'', ''b'', ''c''])],
    trace = [Notify ErrorMessage (ErrorParsing ''Unknown line 11''),
             PostParseError (ErrorParsing ''Unknown line 11'')]\<rparr>"
  using clean_twoSections
  by (simp add: applyAllPatchesToFiles_def postParseError_def emit_def example_defs)

lemma lenient_session:
  "applyAllPatchesToFiles
     (exampleHost (returning [modifyPatch, emptyPatch]) (yielding (textOf [''a'', ''B'', ''c''])))
     twoSections (exampleWorld [''a'', ''b'', ''c'']) =
   \<lparr>files = [''/ws/a.txt'' \<mapsto> File (textOf [''a'', ''B'', ''c''])],
    trace = [Stat ''/ws/a.txt'', Stat ''/ws/a.txt'', ReadFile ''/ws/a.txt'',
             ApplyPatch (textOf [''a'', ''b'', ''c'']) modifyPatch 2,
             WriteFile ''/ws/a.txt'' (textOf [''a'', ''B'', ''c'']),
             Notify InformationMessage (PatchApplied ''/ws/a.txt'' ''a.txt''),
             OpenTextDocument ''/ws/a.txt'', ShowTextDocument ''/ws/a.txt'',
             Notify InformationMessage (SkippingNoHunks ''b.txt''),
             Notify InformationMessage (Summary 1 1 0)]\<rparr>"
proof -
  have one: "applySinglePatch
     (exampleHost (returning [modifyPatch, emptyPatch]) (yielding (textOf [''a'', ''B'', ''c''])))
     modifyPatch (exampleWorld [''a'', ''b'', ''c'']) =
   (Inr True,
    \<lparr>files = [''/ws/a.txt'' \<mapsto> File (textOf [''a'', ''B'', ''c''])],
     trace = [Stat ''/ws/a.txt'', Stat ''/ws/a.txt'', ReadFile ''/ws/a.txt'',
             ApplyPatch (textOf [''a'', ''b'', ''c'']) modifyPatch 2,
             WriteFile ''/ws/a.txt'' (textOf [''a'', ''B'', ''c'']),
             Notify InformationMessage (PatchApplied ''/ws/a.txt'' ''a.txt''),
             OpenTextDocument ''/ws/a.txt'', ShowTextDocument ''/ws/a.txt'']\<rparr>)"
    by (simp add: single_defs host_defs string_defs example_defs)
  have hs: "hunks modifyPatch \<noteq> []" "hunks emptyPatch = []"
    by (simp_all add: modifyPatch_def emptyPatch_def)
  have name: "patchName emptyPatch = ''b.txt''"
    by (simp add: patchName_def emptyPatch_def string_defs)
  have parse: "parsePatch
     (exampleHost (returning [modifyPatch, emptyPatch]) (yielding (textOf [''a'', ''B'', ''c''])))
     (cleanDiffInput twoSections) = Inr [modifyPatch, emptyPatch]"
    by (simp add: exampleHost_def returning_def)
  show ?thesis
    using clean_twoSections
    by (simp add: applyAllPatchesToFiles_def parse one hs name summary_def emit_def)
qed

section \<open>A patch that does not fit\<close>

text \<open>
  Claim C1. Whenever \<^verbatim>\<open>applySinglePatch\<close> has called the library and the library
  answered that the patch cannot be applied to the content, the call returns \<^verbatim>\<open>false\<close>,
  its last act is the failure message, and no file was written or deleted on the way: the
  workspace files are what they were before the call.
\<close>

theorem failed_patch_leaves_file_untouched:
  assumes run: "applySinglePatch env p w = (r, w')" and tr: "trace w' = trace w @ es"
    and call: "ApplyPatch c q f \<in> set es" and fail: "applyPatch env c q f = Inr None"
  shows "r = Inr False \<and> files w' = files w \<and> (\<forall>ev\<in>set es. \<not> mutates ev) \<and>
         (\<exists>t d. last es = Notify ErrorMessage (FailedToApply t d))"
  using applySinglePatch_anatomy[OF run tr]
proof (elim disjE conjE exE)
  assume "\<forall>ev\<in>set es. preparing p ev"
  with call show ?thesis by (auto simp: preparing_def isApplyPatch_def)
next
  fix t d orig w1 es1 es2
  assume es: "es = es1 @ ApplyPatch (normalizeLineEndings orig) p 2 # es2"
    and p1: "\<forall>ev\<in>set es1. preparing p ev" and p2: "\<forall>ev\<in>set es2. finishing p ev"
    and out: "case applyPatch env (normalizeLineEndings orig) p 2 of
               Inl e \<Rightarrow> r = Inr False \<and> files w' = files w \<and>
                        es2 = [Notify ErrorMessage (ErrorApplying t d (excMessage e))]
             | Inr None \<Rightarrow> r = Inr False \<and> files w' = files w \<and>
                        es2 = [Notify ErrorMessage (FailedToApply t d)]
             | Inr (Some res) \<Rightarrow>
                 catchH (writeResult env p t d res) (reportError t d)
                   (emit (ApplyPatch (normalizeLineEndings orig) p 2) w1) = (r, w')"
  from the_one_call[OF es p1 p2 call] fail
  have "applyPatch env (normalizeLineEndings orig) p 2 = Inr None" by simp
  with out have "r = Inr False" "files w' = files w"
    "es2 = [Notify ErrorMessage (FailedToApply t d)]" by simp_all
  moreover from p1 have "\<forall>ev\<in>set es1. \<not> mutates ev" by (simp add: preparing_def)
  ultimately show ?thesis using es by (auto simp: mutates_def)
qed

text \<open>
  The modification patch of the examples against a file the engine finds no place in: the
  run ends with the failure message, and the file is as it was.
\<close>

lemma rejected_run:
  "applySinglePatch (exampleHost (returning []) rejecting) modifyPatch
     (exampleWorld [''a'', ''x'', ''c'']) =
   (Inr False,
    \<lparr>files = [''/ws/a.txt'' \<mapsto> File (textOf [''a'', ''x'', ''c''])],
     trace = [Stat ''/ws/a.txt'', Stat ''/ws/a.txt'', ReadFile ''/ws/a.txt'',
              ApplyPatch (textOf [''a'', ''x'', ''c'']) modifyPatch 2,
              Notify ErrorMessage (FailedToApply ''/ws/a.txt'' ''a.txt'')]\<rparr>)"
  by (simp add: single_defs host_defs string_defs example_defs)

theorem failed_patch_leaves_file_untouched_witness:
  "fst (applySinglePatch (exampleHost (returning []) rejecting) modifyPatch
          (exampleWorld [''a'', ''x'', ''c''])) = Inr False \<and>
   files (snd (applySinglePatch (exampleHost (returning []) rejecting) modifyPatch
          (exampleWorld [''a'', ''x'', ''c''])))
     = files (exampleWorld [''a'', ''x'', ''c''])"
proof -
  have tr: "trace \<lparr>files = [''/ws/a.txt'' \<mapsto> File (textOf [''a'', ''x'', ''c''])],
     trace = [Stat ''/ws/a.txt'', Stat ''/ws/a.txt'', ReadFile ''/ws/a.txt'',
              ApplyPatch (textOf [''a'', ''x'', ''c'']) modifyPatch 2,
              Notify ErrorMessage (FailedToApply ''/ws/a.txt'' ''a.txt'')]\<rparr>
      = trace (exampleWorld [''a'', ''x'', ''c'']) @
         [Stat ''/ws/a.txt'', Stat ''/ws/a.txt'', ReadFile ''/ws/a.txt'',
              ApplyPatch (textOf [''a'', ''x'', ''c'']) modifyPatch 2,
              Notify ErrorMessage (FailedToApply ''/ws/a.txt'' ''a.txt'')]"
    by (simp add: exampleWorld_def)
  have call: "ApplyPatch (textOf [''a'', ''x'', ''c'']) modifyPatch 2 \<in> set
         [Stat ''/ws/a.txt'', Stat ''/ws/a.txt'', ReadFile ''/ws/a.txt'',
              ApplyPatch (textOf [''a'', ''x'', ''c'']) modifyPatch 2,
              Notify ErrorMessage (FailedToApply ''/ws/a.txt'' ''a.txt'')]"
    by simp
  have fail: "applyPatch (exampleHost (returning []) rejecting)
        (textOf [''a'', ''x'', ''c'']) modifyPatch 2 = Inr None"
    by (simp add: exampleHost_def rejecting_def)
  from failed_patch_leaves_file_untouched[OF rejected_run tr call fail]
  show ?thesis by (simp add: rejected_run)
qed

section \<open>Deletion patches\<close>

lemma delete_run:
  "delete env t w = (r, w') \<Longrightarrow>
     trace w' = trace w @ [Delete t] \<and>
     (case r of Inl e \<Rightarrow> files w' = files w | Inr u \<Rightarrow> files w' = (files w)(t := None))"
  by (auto simp: delete_def hostcall_def emit_def split: option.splits node.splits)

lemma writeFile_run:
  "writeFile env t c w = (r, w') \<Longrightarrow>
     trace w' = trace w @ [WriteFile t c] \<and>
     (case r of Inl e \<Rightarrow> files w' = files w | Inr u \<Rightarrow> files w' = (files w)(t \<mapsto> File c))"
  by (auto simp: writeFile_def hostcall_def emit_def split: option.splits node.splits)

lemma calm_simps:
  "calm (Notify s n)" "calm (OpenTextDocument u)" "calm (ShowTextDocument u)"
  by (simp_all add: calm_def mutates_def isApplyPatch_def)

lemma blank_result_deletes:
  assumes del: "isDeletedFile p" and blank: "trim res = []"
    and run: "catchH (writeResult env p t d res) (reportError t d) w2 = (r, w')"
  shows "\<exists>es3. trace w' = trace w2 @ Delete t # es3 \<and> (\<forall>ev\<in>set es3. \<not> mutates ev) \<and>
           (r = Inr True \<or> r = Inr False) \<and>
           (r = Inr True \<longrightarrow> files w' = (files w2)(t := None) \<and>
              es3 = [Notify InformationMessage (FileDeleted t d)]) \<and>
           (r = Inr False \<longrightarrow> files w' = files w2)"
proof -
  obtain r1 w3 where d: "delete env t w2 = (r1, w3)" by force
  note dr = delete_run[OF d]
  show ?thesis
  proof (cases r1)
    case (Inl e)
    with del blank run d dr show ?thesis
      by (auto simp: writeResult_def catchH_bindH reportError_eq emit_def mutates_def)
  next
    case (Inr u)
    with del blank run d dr show ?thesis
      by (auto simp: writeResult_def catchH_bindH catchH_retH notify_def emit_def mutates_def)
  qed
qed

lemma traced_after_write:
  "traced calm (catchH (bindH (openTextDocument env t) (\<lambda>_. bindH (showTextDocument env t) (\<lambda>_. retH True))) (reportError t d))"
  unfolding reportError_def by (auto intro!: traced_rules simp: calm_simps)

lemma text_result_is_written:
  assumes del: "isDeletedFile p" and nonblank: "trim res \<noteq> []"
    and run: "catchH (writeResult env p t d res) (reportError t d) w2 = (r, w')"
  shows "\<exists>es3. trace w' = trace w2 @ WriteFile t res # es3 \<and> (\<forall>ev\<in>set es3. \<not> mutates ev) \<and>
           (r = Inr True \<or> r = Inr False) \<and>
           (r = Inr True \<longrightarrow> files w' = (files w2)(t \<mapsto> File res) \<and>
              Notify WarningMessage (UpdatedInsteadOfDeleted t d) \<in> set es3) \<and>
           (files w' = files w2 \<or> files w' = (files w2)(t \<mapsto> File res))"
proof -
  obtain r1 w3 where d: "writeFile env t res w2 = (r1, w3)" by force
  note dr = writeFile_run[OF d]
  show ?thesis
  proof (cases r1)
    case (Inl e)
    with del nonblank run d dr show ?thesis
      by (auto simp: writeResult_def catchH_bindH reportError_eq emit_def mutates_def)
  next
    case (Inr u)
    let ?w4 = "emit (Notify WarningMessage (UpdatedInsteadOfDeleted t d)) w3"
    from Inr del nonblank run d have rest:
      "catchH (bindH (openTextDocument env t) (\<lambda>_. bindH (showTextDocument env t) (\<lambda>_. retH True)))
         (reportError t d) ?w4 = (r, w')"
      by (simp add: writeResult_def catchH_bindH notify_def)
    from traced_ext[OF traced_after_write rest] obtain es4 where es4:
      "trace w' = trace ?w4 @ es4" "\<forall>ev\<in>set es4. calm ev" "files w' = files ?w4"
      unfolding ext_def list_all_iff calm_def by blast
    have rr: "r = Inr True \<or> r = Inr False"
      using rest by (auto simp: catchH_def bindH_def retH_def reportError_eq split: prod.splits sum.splits)
    from es4 dr Inr rr show ?thesis
      by (auto simp: emit_def calm_def mutates_def)
  qed
qed


lemma filter_mutates_none: "\<forall>ev\<in>set es. \<not> mutates ev \<Longrightarrow> filter mutates es = []"
  by (induction es) auto

lemma preparing_not_mutates: "\<forall>ev\<in>set es. preparing p ev \<Longrightarrow> filter mutates es = []"
  by (rule filter_mutates_none) (simp add: preparing_def)

text \<open>
  Claim C2, as the code has it. For a deletion patch to which the library returned a text:
  if the text is blank (nothing is left of it after \<^verbatim>\<open>trim\<close>), the only change made is the
  deletion of the target, and a call that returns \<^verbatim>\<open>true\<close> has removed the file and ends
  with the message that it was deleted; otherwise the only change attempted is writing that
  text to the target, no file is deleted, and a call that returns \<^verbatim>\<open>true\<close> has written
  the text and warned that the file was updated instead of deleted.
\<close>

theorem deletion_patch_outcome:
  assumes run: "applySinglePatch env p w = (r, w')" and tr: "trace w' = trace w @ es"
    and del: "isDeletedFile p"
    and call: "ApplyPatch c q f \<in> set es" and ok: "applyPatch env c q f = Inr (Some res)"
  shows "if trim res = []
         then \<exists>t d. filter mutates es = [Delete t] \<and> (r = Inr True \<or> r = Inr False) \<and>
                (r = Inr True \<longrightarrow> files w' = (files w)(t := None) \<and>
                   last es = Notify InformationMessage (FileDeleted t d)) \<and>
                (r = Inr False \<longrightarrow> files w' = files w)
         else \<exists>t d. filter mutates es = [WriteFile t res] \<and> (r = Inr True \<or> r = Inr False) \<and>
                (r = Inr True \<longrightarrow> files w' = (files w)(t \<mapsto> File res) \<and>
                   Notify WarningMessage (UpdatedInsteadOfDeleted t d) \<in> set es) \<and>
                (files w' = files w \<or> files w' = (files w)(t \<mapsto> File res))"
  using applySinglePatch_anatomy[OF run tr]
proof (elim disjE conjE exE)
  assume "\<forall>ev\<in>set es. preparing p ev"
  with call show ?thesis by (auto simp: preparing_def isApplyPatch_def)
next
  fix t d orig w1 es1 es2
  let ?c = "normalizeLineEndings orig"
  let ?w2 = "emit (ApplyPatch ?c p 2) w1"
  assume es: "es = es1 @ ApplyPatch ?c p 2 # es2"
    and p1: "\<forall>ev\<in>set es1. preparing p ev" and p2: "\<forall>ev\<in>set es2. finishing p ev"
    and t1: "trace w1 = trace w @ es1" and f1: "files w1 = files w"
    and out: "case applyPatch env ?c p 2 of
               Inl e \<Rightarrow> r = Inr False \<and> files w' = files w \<and>
                        es2 = [Notify ErrorMessage (ErrorApplying t d (excMessage e))]
             | Inr None \<Rightarrow> r = Inr False \<and> files w' = files w \<and>
                        es2 = [Notify ErrorMessage (FailedToApply t d)]
             | Inr (Some res) \<Rightarrow>
                 catchH (writeResult env p t d res) (reportError t d) ?w2 = (r, w')"
  from the_one_call[OF es p1 p2 call] ok
  have "applyPatch env ?c p 2 = Inr (Some res)" by simp
  with out have wr: "catchH (writeResult env p t d res) (reportError t d) ?w2 = (r, w')"
    by simp
  have t2: "trace ?w2 = trace w @ es1 @ [ApplyPatch ?c p 2]" and f2: "files ?w2 = files w"
    using t1 f1 by (simp_all add: emit_def)
  have m1: "filter mutates es1 = []" by (rule preparing_not_mutates[OF p1])
  show ?thesis
  proof (cases "trim res = []")
    case True
    from blank_result_deletes[OF del True wr] obtain es3 where es3:
      "trace w' = trace ?w2 @ Delete t # es3" "\<forall>ev\<in>set es3. \<not> mutates ev"
      "r = Inr True \<or> r = Inr False"
      "r = Inr True \<longrightarrow> files w' = (files ?w2)(t := None) \<and>
              es3 = [Notify InformationMessage (FileDeleted t d)]"
      "r = Inr False \<longrightarrow> files w' = files ?w2"
      by blast
    from es3(1) t2 tr have es': "es = es1 @ ApplyPatch ?c p 2 # Delete t # es3" by simp
    have "filter mutates es = [Delete t]"
      using m1 filter_mutates_none[OF es3(2)] by (simp add: es' mutates_def)
    moreover have "r = Inr True \<longrightarrow> last es = Notify InformationMessage (FileDeleted t d)"
      using es3(4) by (simp add: es')
    ultimately show ?thesis using True es3(3,4,5) f2 by auto
  next
    case False
    from text_result_is_written[OF del False wr] obtain es3 where es3:
      "trace w' = trace ?w2 @ WriteFile t res # es3" "\<forall>ev\<in>set es3. \<not> mutates ev"
      "r = Inr True \<or> r = Inr False"
      "r = Inr True \<longrightarrow> files w' = (files ?w2)(t \<mapsto> File res) \<and>
              Notify WarningMessage (UpdatedInsteadOfDeleted t d) \<in> set es3"
      "files w' = files ?w2 \<or> files w' = (files ?w2)(t \<mapsto> File res)"
      by blast
    from es3(1) t2 tr have es': "es = es1 @ ApplyPatch ?c p 2 # WriteFile t res # es3" by simp
    have "filter mutates es = [WriteFile t res]"
      using m1 filter_mutates_none[OF es3(2)] by (simp add: es' mutates_def)
    moreover have "r = Inr True \<longrightarrow> Notify WarningMessage (UpdatedInsteadOfDeleted t d) \<in> set es"
      using es3(4) by (simp add: es')
    ultimately show ?thesis using False es3(3,4,5) f2 by auto
  qed
qed

text \<open>
  Against claim C2 as it is stated. A deletion patch removes the first line of a file that
  holds that line and an empty line; the library returns the single line feed that is
  left. This result is not empty, yet the file is deleted, the message is the one for a
  deletion, and nothing is written and no warning is shown.
\<close>

lemma blank_run:
  "applySinglePatch (exampleHost (returning []) (yielding [LF])) deletePatch
     (exampleWorld [''a'', []]) =
   (Inr True,
    \<lparr>files = Map.empty,
     trace = [Stat ''/ws/a.txt'', Stat ''/ws/a.txt'', ReadFile ''/ws/a.txt'',
              ApplyPatch (textOf [''a'', []]) deletePatch 2,
              Delete ''/ws/a.txt'',
              Notify InformationMessage (FileDeleted ''/ws/a.txt'' ''a.txt'')]\<rparr>)"
  by (simp add: single_defs host_defs string_defs example_defs)

theorem blank_result_is_deleted_counterexample:
  "isDeletedFile deletePatch \<and>
   applyPatch (exampleHost (returning []) (yielding [LF]))
     (normalizeLineEndings (textOf [''a'', []])) deletePatch 2 = Inr (Some [LF]) \<and>
   [LF] \<noteq> [] \<and>
   fst (applySinglePatch (exampleHost (returning []) (yielding [LF])) deletePatch
          (exampleWorld [''a'', []])) = Inr True \<and>
   files (snd (applySinglePatch (exampleHost (returning []) (yielding [LF])) deletePatch
          (exampleWorld [''a'', []]))) ''/ws/a.txt'' = None \<and>
   filter mutates (trace (snd (applySinglePatch (exampleHost (returning []) (yielding [LF]))
          deletePatch (exampleWorld [''a'', []])))) = [Delete ''/ws/a.txt''] \<and>
   filter (\<lambda>ev. case ev of Notify s n \<Rightarrow> s = WarningMessage | _ \<Rightarrow> False)
     (trace (snd (applySinglePatch (exampleHost (returning []) (yielding [LF]))
          deletePatch (exampleWorld [''a'', []]))))  = []"
  by (simp add: blank_run mutates_def) (simp add: example_defs isDeletedFile_def)

text \<open>A deletion patch whose result still holds a line: the line is written, with a warning.\<close>

lemma leftover_run:
  "applySinglePatch (exampleHost (returning []) (yielding (textOf [''b'']))) deletePatch
     (exampleWorld [''a'', ''b'']) =
   (Inr True,
    \<lparr>files = [''/ws/a.txt'' \<mapsto> File (textOf [''b''])],
     trace = [Stat ''/ws/a.txt'', Stat ''/ws/a.txt'', ReadFile ''/ws/a.txt'',
              ApplyPatch (textOf [''a'', ''b'']) deletePatch 2,
              WriteFile ''/ws/a.txt'' (textOf [''b'']),
              Notify WarningMessage (UpdatedInsteadOfDeleted ''/ws/a.txt'' ''a.txt''),
              OpenTextDocument ''/ws/a.txt'', ShowTextDocument ''/ws/a.txt'']\<rparr>)"
  by (simp add: single_defs host_defs string_defs example_defs)

theorem deletion_patch_outcome_witness:
  "fst (applySinglePatch (exampleHost (returning []) (yielding (textOf [''b'']))) deletePatch
          (exampleWorld [''a'', ''b''])) = Inr True \<and>
   files (snd (applySinglePatch (exampleHost (returning []) (yielding (textOf [''b''])))
          deletePatch (exampleWorld [''a'', ''b'']))) ''/ws/a.txt'' = Some (File (textOf [''b''])) \<and>
   filter mutates
     [Stat ''/ws/a.txt'', Stat ''/ws/a.txt'', ReadFile ''/ws/a.txt'',
      ApplyPatch (textOf [''a'', ''b'']) deletePatch 2,
      WriteFile ''/ws/a.txt'' (textOf [''b'']),
      Notify WarningMessage (UpdatedInsteadOfDeleted ''/ws/a.txt'' ''a.txt''),
      OpenTextDocument ''/ws/a.txt'', ShowTextDocument ''/ws/a.txt'']
     = [WriteFile ''/ws/a.txt'' (textOf [''b''])]"
proof -
  let ?es = "[Stat ''/ws/a.txt'', Stat ''/ws/a.txt'', ReadFile ''/ws/a.txt'',
      ApplyPatch (textOf [''a'', ''b'']) deletePatch 2,
      WriteFile ''/ws/a.txt'' (textOf [''b'']),
      Notify WarningMessage (UpdatedInsteadOfDeleted ''/ws/a.txt'' ''a.txt''),
      OpenTextDocument ''/ws/a.txt'', ShowTextDocument ''/ws/a.txt'']"
  have tr: "trace \<lparr>files = [''/ws/a.txt'' \<mapsto> File (textOf [''b''])], trace = ?es\<rparr>
      = trace (exampleWorld [''a'', ''b'']) @ ?es"
    by (simp add: exampleWorld_def)
  have del: "isDeletedFile deletePatch"
    by (simp add: isDeletedFile_def deletePatch_def)
  have call: "ApplyPatch (textOf [''a'', ''b'']) deletePatch 2 \<in> set ?es"
    by simp
  have ok: "applyPatch (exampleHost (returning []) (yielding (textOf [''b''])))
        (textOf [''a'', ''b'']) deletePatch 2 = Inr (Some (textOf [''b'']))"
    by (simp add: exampleHost_def yielding_def)
  have nonblank: "trim (textOf [''b'']) \<noteq> []"
    by (simp add: string_defs)
  from deletion_patch_outcome[OF leftover_run tr del call ok] nonblank
  have "\<exists>t d. filter mutates ?es = [WriteFile t (textOf [''b''])]"
    by auto
  then show ?thesis
    by (simp add: leftover_run mutates_def)
qed

section \<open>Parse errors\<close>

text \<open>
  Against claim C3. The text \<open>twoSections\<close> has a well-formed section for \<^verbatim>\<open>a.txt\<close> and
  a malformed one. If the parser throws at the malformed line, the error is reported and
  nothing else happens: the library is not called and \<^verbatim>\<open>a.txt\<close> keeps its content. If the
  parser returns the well-formed section, that section is applied and no parse error is
  reported. In neither case is there both a parse error and an applied section.
\<close>

theorem malformed_section_counterexample:
  "filter isParseError (trace (applyAllPatchesToFiles
     (exampleHost (throwing ''Unknown line 11'') (yielding (textOf [''a'', ''B'', ''c''])))
     twoSections (exampleWorld [''a'', ''b'', ''c''])))
     = [Notify ErrorMessage (ErrorParsing ''Unknown line 11''),
        PostParseError (ErrorParsing ''Unknown line 11'')] \<and>
   filter isApplyPatch (trace (applyAllPatchesToFiles
     (exampleHost (throwing ''Unknown line 11'') (yielding (textOf [''a'', ''B'', ''c''])))
     twoSections (exampleWorld [''a'', ''b'', ''c''])))
     = [] \<and>
   files (applyAllPatchesToFiles
     (exampleHost (throwing ''Unknown line 11'') (yielding (textOf [''a'', ''B'', ''c''])))
     twoSections (exampleWorld [''a'', ''b'', ''c''])) ''/ws/a.txt''
     = Some (File (textOf [''a'', ''b'', ''c''])) \<and>
   filter isParseError (trace (applyAllPatchesToFiles
     (exampleHost (returning [modifyPatch, emptyPatch]) (yielding (textOf [''a'', ''B'', ''c''])))
     twoSections (exampleWorld [''a'', ''b'', ''c''])))
     = [] \<and>
   files (applyAllPatchesToFiles
     (exampleHost (returning [modifyPatch, emptyPatch]) (yielding (textOf [''a'', ''B'', ''c''])))
     twoSections (exampleWorld [''a'', ''b'', ''c''])) ''/ws/a.txt''
     = Some (File (textOf [''a'', ''B'', ''c'']))"
  unfolding strict_session lenient_session
  by (simp add: isParseError_def isApplyPatch_def)

lemma applying_not_parse_error: "applying ev \<Longrightarrow> \<not> isParseError ev"
  by (auto simp: applying_def isParseError_def split: event.splits notice.splits)

lemma summary_not_parse_error: "\<not> isParseError (summary counts)"
  by (cases counts) (simp add: summary_def isParseError_def)

lemma filter_none: "\<forall>ev\<in>set es. \<not> P ev \<Longrightarrow> filter P es = []"
  by (induction es) auto

text \<open>
  Claim C3, as the code has it. A parse error ends the session for the whole text: if the
  parser throws, the error is shown (and posted to the webview if there is one), and that
  is all the session does: no file changes and no patch is looked at. The same holds, with
  its own message, if the parser returns no patch. If the parser returns patches, the
  session is the loop over all of them followed by the summary of its counters: every
  returned patch is counted in it, and no parse error is reported.
\<close>

theorem parse_error_ends_session:
  assumes clean: "cleanDiffInput raw \<noteq> []"
  shows "case parsePatch env (cleanDiffInput raw) of
           Inl e \<Rightarrow>
             files (applyAllPatchesToFiles env raw w) = files w \<and>
             trace (applyAllPatchesToFiles env raw w) =
               trace w @ Notify ErrorMessage (ErrorParsing (excMessage e)) #
                 (if view env then [PostParseError (ErrorParsing (excMessage e))] else [])
         | Inr ps \<Rightarrow>
             if ps = [] then
               files (applyAllPatchesToFiles env raw w) = files w \<and>
               trace (applyAllPatchesToFiles env raw w) =
                 trace w @ Notify ErrorMessage CouldNotParse #
                   (if view env then [PostParseError CouldNotParse] else [])
             else
               (\<exists>a s e w1 es.
                  applyLoop env ps (0, 0, 0) w = ((a, s, e), w1) \<and>
                  applyAllPatchesToFiles env raw w = emit (summary (a, s, e)) w1 \<and>
                  a + s + e = length ps \<and>
                  trace w1 = trace w @ es \<and>
                  trace (applyAllPatchesToFiles env raw w) = trace w @ es @ [summary (a, s, e)] \<and>
                  filter isParseError (es @ [summary (a, s, e)]) = [])"
proof (cases "parsePatch env (cleanDiffInput raw)")
  case (Inl e)
  with clean show ?thesis
    by (simp add: applyAllPatchesToFiles_def postParseError_def emit_def)
next
  case (Inr ps)
  show ?thesis
  proof (cases "ps = []")
    case True
    with Inr clean show ?thesis
      by (simp add: applyAllPatchesToFiles_def postParseError_def emit_def)
  next
    case False
    obtain a s e w1 where loop: "applyLoop env ps (0, 0, 0) w = ((a, s, e), w1)"
      by (metis surj_pair)
    from applyLoop_ext[OF loop] obtain es where es:
      "trace w1 = trace w @ es" "\<forall>ev\<in>set es. applying ev"
      unfolding ext_def list_all_iff by blast
    from applyLoop_counts[OF loop] have sum: "a + s + e = length ps" by simp
    from clean Inr False loop have session:
      "applyAllPatchesToFiles env raw w = emit (summary (a, s, e)) w1"
      by (simp add: applyAllPatchesToFiles_def)
    with es(1) have tr:
      "trace (applyAllPatchesToFiles env raw w) = trace w @ es @ [summary (a, s, e)]"
      by (simp add: emit_def)
    have quiet: "filter isParseError (es @ [summary (a, s, e)]) = []"
      using es(2) by (simp add: summary_not_parse_error filter_none applying_not_parse_error)
    have "\<exists>a s e w1 es.
            applyLoop env ps (0, 0, 0) w = ((a, s, e), w1) \<and>
            applyAllPatchesToFiles env raw w = emit (summary (a, s, e)) w1 \<and>
            a + s + e = length ps \<and>
            trace w1 = trace w @ es \<and>
            trace (applyAllPatchesToFiles env raw w) = trace w @ es @ [summary (a, s, e)] \<and>
            filter isParseError (es @ [summary (a, s, e)]) = []"
      using loop session sum es(1) tr quiet by blast
    with Inr False show ?thesis by simp
  qed
qed

text \<open>
  Both kinds of session on the text with two sections: the parser that throws leaves the
  parse error and nothing else; the parser that returns two patches leads to the loop over
  both (one applied, one skipped) and the summary.
\<close>

theorem parse_error_ends_session_witness:
  "cleanDiffInput twoSections \<noteq> [] \<and>
   trace (applyAllPatchesToFiles
     (exampleHost (throwing ''Unknown line 11'') (yielding (textOf [''a'', ''B'', ''c''])))
     twoSections (exampleWorld [''a'', ''b'', ''c''])) =
     [Notify ErrorMessage (ErrorParsing ''Unknown line 11''),
      PostParseError (ErrorParsing ''Unknown line 11'')] \<and>
   files (applyAllPatchesToFiles
     (exampleHost (throwing ''Unknown line 11'') (yielding (textOf [''a'', ''B'', ''c''])))
     twoSections (exampleWorld [''a'', ''b'', ''c''])) = files (exampleWorld [''a'', ''b'', ''c'']) \<and>
   (\<exists>a s e w1.
      applyLoop
        (exampleHost (returning [modifyPatch, emptyPatch]) (yielding (textOf [''a'', ''B'', ''c''])))
        [modifyPatch, emptyPatch] (0, 0, 0) (exampleWorld [''a'', ''b'', ''c'']) = ((a, s, e), w1) \<and>
      applyAllPatchesToFiles
        (exampleHost (returning [modifyPatch, emptyPatch]) (yielding (textOf [''a'', ''B'', ''c''])))
        twoSections (exampleWorld [''a'', ''b'', ''c'']) = emit (summary (a, s, e)) w1 \<and>
      a + s + e = 2) \<and>
   last (trace (applyAllPatchesToFiles
     (exampleHost (returning [modifyPatch, emptyPatch]) (yielding (textOf [''a'', ''B'', ''c''])))
     twoSections (exampleWorld [''a'', ''b'', ''c''])))
     = Notify InformationMessage (Summary 1 1 0)"
proof -
  have strict: "parsePatch
     (exampleHost (throwing ''Unknown line 11'') (yielding (textOf [''a'', ''B'', ''c''])))
     (cleanDiffInput twoSections) = Inl (Exn [] ''Error'' ''Unknown line 11'')"
    by (simp add: exampleHost_def throwing_def)
  have lenient: "parsePatch
     (exampleHost (returning [modifyPatch, emptyPatch]) (yielding (textOf [''a'', ''B'', ''c''])))
     (cleanDiffInput twoSections) = Inr [modifyPatch, emptyPatch]"
    by (simp add: exampleHost_def returning_def)
  from parse_error_ends_session[OF clean_twoSections,
      of "exampleHost (throwing ''Unknown line 11'') (yielding (textOf [''a'', ''B'', ''c'']))"
         "exampleWorld [''a'', ''b'', ''c'']"]
  have one: "trace (applyAllPatchesToFiles
     (exampleHost (throwing ''Unknown line 11'') (yielding (textOf [''a'', ''B'', ''c''])))
     twoSections (exampleWorld [''a'', ''b'', ''c''])) =
     [Notify ErrorMessage (ErrorParsing ''Unknown line 11''),
      PostParseError (ErrorParsing ''Unknown line 11'')] \<and>
   files (applyAllPatchesToFiles
     (exampleHost (throwing ''Unknown line 11'') (yielding (textOf [''a'', ''B'', ''c''])))
     twoSections (exampleWorld [''a'', ''b'', ''c''])) = files (exampleWorld [''a'', ''b'', ''c''])"
    unfolding strict by (simp add: exampleHost_def exampleWorld_def)
  from parse_error_ends_session[OF clean_twoSections,
      of "exampleHost (returning [modifyPatch, emptyPatch]) (yielding (textOf [''a'', ''B'', ''c'']))"
         "exampleWorld [''a'', ''b'', ''c'']"]
  have two: "\<exists>a s e w1.
      applyLoop
        (exampleHost (returning [modifyPatch, emptyPatch]) (yielding (textOf [''a'', ''B'', ''c''])))
        [modifyPatch, emptyPatch] (0, 0, 0) (exampleWorld [''a'', ''b'', ''c'']) = ((a, s, e), w1) \<and>
      applyAllPatchesToFiles
        (exampleHost (returning [modifyPatch, emptyPatch]) (yielding (textOf [''a'', ''B'', ''c''])))
        twoSections (exampleWorld [''a'', ''b'', ''c'']) = emit (summary (a, s, e)) w1 \<and>
      a + s + e = 2"
    unfolding lenient by auto
  have three: "last (trace (applyAllPatchesToFiles
     (exampleHost (returning [modifyPatch, emptyPatch]) (yielding (textOf [''a'', ''B'', ''c''])))
     twoSections (exampleWorld [''a'', ''b'', ''c''])))
     = Notify InformationMessage (Summary 1 1 0)"
    unfolding lenient_session by simp
  from clean_twoSections one two three show ?thesis by (intro conjI) simp_all
qed

section \<open>The preview\<close>

lemma previewing_simps:
  "previewing (Notify s n)" "previewing (PostParseError n)" "previewing (OpenContent c)"
  "previewing (ShowDiff a b c d)"
  by (simp_all add: previewing_def usesFile_def isApplyPatch_def)

lemma previewing_not_mutates: "previewing ev \<Longrightarrow> \<not> mutates ev"
  by (auto simp: previewing_def usesFile_def mutates_def split: event.splits)

lemma ext_preview: "previewing ev \<Longrightarrow> ext previewing w (emit ev w)"
  by (rule ext_emit) (simp_all add: previewing_not_mutates)

lemma ext_preview_post: "ext previewing w (snd (postParseError env n w))"
  by (simp add: postParseError_def ext_refl ext_preview previewing_simps)

lemma traced_showDiffView: "traced previewing (showDiffView env p)"
  unfolding showDiffView_def
  by (auto intro!: traced_bindH traced_hostcall traced_retH
      simp: previewing_simps previewing_not_mutates split: prod.split)

lemma showLoop_ext: "showLoop env ps n w = (n', w') \<Longrightarrow> ext previewing w w'"
proof (induction ps arbitrary: n w)
  case Nil
  then show ?case by (simp add: ext_refl)
next
  case (Cons p ps)
  show ?case
  proof (cases "hunks p = []")
    case True
    with Cons.prems have
      "showLoop env ps n (emit (Notify InformationMessage (SkippingDiffView (viewName p))) w) = (n', w')"
      by simp
    from Cons.IH[OF this]
      ext_preview[of "Notify InformationMessage (SkippingDiffView (viewName p))" w]
    show ?thesis by (auto intro: ext_trans simp: previewing_simps)
  next
    case False
    obtain r w1 where run: "showDiffView env p w = (r, w1)" by force
    have e1: "ext previewing w w1" by (rule traced_ext[OF traced_showDiffView run])
    show ?thesis
    proof (cases r)
      case (Inl err)
      let ?w2 = "emit (Notify ErrorMessage (ErrorDiffView (viewName p) (excMessage err))) w1"
      let ?w3 = "snd (postParseError env (ErrorDiffView (viewName p) (excMessage err)) ?w2)"
      from Inl False Cons.prems run have "showLoop env ps n ?w3 = (n', w')" by simp
      from Cons.IH[OF this] have "ext previewing ?w3 w'" .
      moreover have "ext previewing w1 ?w2" by (rule ext_preview) (simp add: previewing_simps)
      moreover have "ext previewing ?w2 ?w3" by (rule ext_preview_post)
      ultimately show ?thesis using e1 by (blast intro: ext_trans)
    next
      case (Inr u)
      with False Cons.prems run have "showLoop env ps (n + 1) w1 = (n', w')" by simp
      from Cons.IH[OF this] e1 show ?thesis by (blast intro: ext_trans)
    qed
  qed
qed

lemma preview_ext: "ext previewing w (processAndShowAllDiffs env raw w)"
proof (cases "cleanDiffInput raw = []")
  case True
  then show ?thesis by (simp add: processAndShowAllDiffs_def ext_preview previewing_simps)
next
  case clean: False
  show ?thesis
  proof (cases "parsePatch env (cleanDiffInput raw)")
    case (Inl e)
    with clean have "processAndShowAllDiffs env raw w =
        snd (postParseError env (ErrorParsingForView (excMessage e))
               (emit (Notify ErrorMessage (ErrorParsingForView (excMessage e))) w))"
      by (simp add: processAndShowAllDiffs_def)
    then show ?thesis
      using ext_preview[of "Notify ErrorMessage (ErrorParsingForView (excMessage e))" w]
        ext_preview_post
      by (auto intro: ext_trans simp: previewing_simps)
  next
    case (Inr ps)
    show ?thesis
    proof (cases "ps = []")
      case True
      with clean Inr show ?thesis
        by (simp add: processAndShowAllDiffs_def ext_preview previewing_simps)
    next
      case False
      obtain n w1 where loop: "showLoop env ps 0 w = (n, w1)" by force
      with clean Inr False have "processAndShowAllDiffs env raw w =
         (if n > 0 then emit (Notify InformationMessage (OpenedDiffViews n)) w1
          else emit (Notify WarningMessage NoDiffViews) w1)"
        by (simp add: processAndShowAllDiffs_def)
      with showLoop_ext[OF loop] show ?thesis
        using ext_preview[of "Notify InformationMessage (OpenedDiffViews n)" w1]
          ext_preview[of "Notify WarningMessage NoDiffViews" w1]
        by (auto intro: ext_trans simp: previewing_simps)
    qed
  qed
qed

lemma reconstruct_offsets:
  "reconstruct (map (\<lambda>h. h\<lparr>oldStart := a h, oldLines := b h, newStart := c h, newLines := d h\<rparr>) hs)
     = reconstruct hs"
  by (simp add: reconstruct_eq allLines_def o_def)

text \<open>
  Claim C4. The two texts of the diff view are projections of the hunk lines alone: the
  original is the payloads (the line without its first character) of the lines that start
  with a space or a minus, over all hunks in order, joined by line feeds and normalised;
  the modified text is the same for the lines that start with a space or a plus. The line
  numbers and lengths of the hunks have no influence, whatever they are, and the preview
  neither changes nor looks at any file of the workspace.
\<close>

theorem reconstruct_projects_hunk_lines:
  "reconstruct hs =
     (normalizeLineEndings (join (map (drop 1) (filter isOldLine (allLines hs)))),
      normalizeLineEndings (join (map (drop 1) (filter isNewLine (allLines hs))))) \<and>
   reconstruct (map (\<lambda>h. h\<lparr>oldStart := a h, oldLines := b h, newStart := c h, newLines := d h\<rparr>) hs)
     = reconstruct hs \<and>
   files (processAndShowAllDiffs env raw w) = files w \<and>
   (\<exists>es. trace (processAndShowAllDiffs env raw w) = trace w @ es \<and> filter usesFile es = [])"
proof -
  from preview_ext[of w env raw] obtain es where es:
    "trace (processAndShowAllDiffs env raw w) = trace w @ es" "\<forall>ev\<in>set es. previewing ev"
    unfolding ext_def list_all_iff by blast
  have "filter usesFile es = []"
    using es(2) by (induction es) (auto simp: previewing_def)
  moreover have "files (processAndShowAllDiffs env raw w) = files w"
    using preview_ext by (rule ext_files) (rule previewing_not_mutates)
  ultimately show ?thesis
    using es(1) reconstruct_eq reconstruct_offsets by blast
qed

theorem reconstruct_projects_hunk_lines_witness:
  "reconstruct (hunks modifyPatch) =
     (''a'' @ [LF] @ ''b'' @ [LF] @ ''c'', ''a'' @ [LF] @ ''B'' @ [LF] @ ''c'')"
proof -
  from reconstruct_projects_hunk_lines[of "hunks modifyPatch"]
  have "reconstruct (hunks modifyPatch) =
     (normalizeLineEndings (join (map (drop 1) (filter isOldLine (allLines (hunks modifyPatch))))),
      normalizeLineEndings (join (map (drop 1) (filter isNewLine (allLines (hunks modifyPatch))))))"
    by blast
  then show ?thesis
    by (simp add: allLines_def isOldLine_def isNewLine_def modifyPatch_def string_defs)
qed

section \<open>Line endings\<close>






section \<open>Creation patches\<close>




section \<open>Fences around the pasted text\<close>

text \<open>
  A fence whose opening line carries the tag \<^verbatim>\<open>diff\<close> is removed on both sides.
\<close>

lemma tagged_fence_is_stripped:
  "cleanDiffInput (textOf [''```diff'', ''--- a/a.txt'', ''+++ b/a.txt'', ''@@ -1 +1 @@'',
                            ''-a'', ''+b'', ''```'']) =
   join [''--- a/a.txt'', ''+++ b/a.txt'', ''@@ -1 +1 @@'', ''-a'', ''+b'']"
  by (simp add: cleanDiffInput_def string_defs)

text \<open>
  Claim C7 fails for a fence without the tag: for the text \<open>fencedUntagged\<close> the closing
  fence is removed and the opening fence stays, so the result is not the diff inside the
  fence.
\<close>

theorem untagged_fence_is_kept:
  "cleanDiffInput fencedUntagged =
     join [''```'', ''--- a/a.txt'', ''+++ b/a.txt'', ''@@ -1 +1 @@'', ''-a'', ''+b''] \<and>
   cleanDiffInput fencedUntagged \<noteq>
     join [''--- a/a.txt'', ''+++ b/a.txt'', ''@@ -1 +1 @@'', ''-a'', ''+b'']"
  by (simp add: cleanDiffInput_def fencedUntagged_def string_defs)

section \<open>Text in which the parser finds nothing\<close>

lemma skip_loop:
  "\<forall>p\<in>set ps. hunks p = [] \<Longrightarrow>
     applyLoop env ps (a, s, e) w =
       ((a, s + length ps, e),
        w\<lparr>trace := trace w @
             map (\<lambda>p. Notify InformationMessage (SkippingNoHunks (patchName p))) ps\<rparr>)"
proof (induction ps arbitrary: s w)
  case Nil
  show ?case by simp
next
  case (Cons p ps)
  then have "hunks p = []" "\<forall>p\<in>set ps. hunks p = []" by simp_all
  with Cons.IH[of "s + 1" "emit (Notify InformationMessage (SkippingNoHunks (patchName p))) w"]
  show ?case by (simp add: emit_def)
qed

text \<open>
  Against claim C8 as it is stated. The text below holds no line that begins with a file
  marker. The code makes no check for markers; what it reports depends on the answer of
  the parser alone. When the parser answers with one patch that has no file names and no
  hunks, no parse error is reported: the patch is skipped under the name
  \<^verbatim>\<open>unknown_file\<close> and the session ends with the warning summary.
\<close>

theorem no_markers_counterexample:
  "cleanDiffInput ''apply this please'' = ''apply this please'' \<and>
   trace (applyAllPatchesToFiles (exampleHost (returning [hunklessPatch]) rejecting)
     ''apply this please'' (exampleWorld [''a''])) =
     [Notify InformationMessage (SkippingNoHunks ''unknown_file''),
      Notify WarningMessage (Summary 0 1 0)] \<and>
   filter isParseError
     (trace (applyAllPatchesToFiles (exampleHost (returning [hunklessPatch]) rejecting)
        ''apply this please'' (exampleWorld [''a'']))) = []"
proof -
  have clean: "cleanDiffInput ''apply this please'' = ''apply this please''"
    by (simp add: cleanDiffInput_def string_defs)
  have name: "patchName hunklessPatch = ''unknown_file''"
    by (simp add: patchName_def hunklessPatch_def string_defs)
  have hunkless: "hunks hunklessPatch = []"
    by (simp add: hunklessPatch_def)
  have session: "applyAllPatchesToFiles (exampleHost (returning [hunklessPatch]) rejecting)
     ''apply this please'' (exampleWorld [''a'']) =
     \<lparr>files = [''/ws/a.txt'' \<mapsto> File (textOf [''a''])],
      trace = [Notify InformationMessage (SkippingNoHunks ''unknown_file''),
               Notify WarningMessage (Summary 0 1 0)]\<rparr>"
    using name hunkless
    by (simp add: applyAllPatchesToFiles_def clean summary_def emit_def
        exampleHost_def returning_def exampleWorld_def)
  show ?thesis
    unfolding session by (simp add: clean isParseError_def)
qed

text \<open>
  Claim C8, as the code has it. For a pasted text that is not empty after cleaning, what
  the session reports depends on the answer of the parser, and in none of the three cases
  in which the parser found no hunk is a patch applied or a file changed. If the parser
  throws, the session shows that error as a parse error (and posts it to the webview if
  there is one) and does nothing else. If it returns no patch, the same holds with the
  message that the diff could not be parsed. If it returns only patches without hunks,
  each is skipped with an information message and the session ends with the warning
  summary: none applied, all skipped, no error.
\<close>

theorem nothing_parsed_nothing_applied:
  assumes clean: "cleanDiffInput raw \<noteq> []"
  shows "case parsePatch env (cleanDiffInput raw) of
           Inl err \<Rightarrow>
             files (applyAllPatchesToFiles env raw w) = files w \<and>
             trace (applyAllPatchesToFiles env raw w) =
               trace w @ Notify ErrorMessage (ErrorParsing (excMessage err)) #
                 (if view env then [PostParseError (ErrorParsing (excMessage err))] else [])
         | Inr ps \<Rightarrow>
             if ps = [] then
               files (applyAllPatchesToFiles env raw w) = files w \<and>
               trace (applyAllPatchesToFiles env raw w) =
                 trace w @ Notify ErrorMessage CouldNotParse #
                   (if view env then [PostParseError CouldNotParse] else [])
             else
               (\<forall>p\<in>set ps. hunks p = []) \<longrightarrow>
                 files (applyAllPatchesToFiles env raw w) = files w \<and>
                 trace (applyAllPatchesToFiles env raw w) =
                   trace w @
                   map (\<lambda>p. Notify InformationMessage (SkippingNoHunks (patchName p))) ps @
                   [Notify WarningMessage (Summary 0 (length ps) 0)]"
proof (cases "parsePatch env (cleanDiffInput raw)")
  case (Inl err)
  with clean show ?thesis
    by (simp add: applyAllPatchesToFiles_def postParseError_def emit_def)
next
  case (Inr ps)
  show ?thesis
  proof (cases "ps = []")
    case True
    with Inr clean show ?thesis
      by (simp add: applyAllPatchesToFiles_def postParseError_def emit_def)
  next
    case False
    have "(\<forall>p\<in>set ps. hunks p = []) \<longrightarrow>
                 files (applyAllPatchesToFiles env raw w) = files w \<and>
                 trace (applyAllPatchesToFiles env raw w) =
                   trace w @
                   map (\<lambda>p. Notify InformationMessage (SkippingNoHunks (patchName p))) ps @
                   [Notify WarningMessage (Summary 0 (length ps) 0)]"
    proof
      assume "\<forall>p\<in>set ps. hunks p = []"
      from skip_loop[OF this, of env 0 0 0 w] clean Inr False show
        "files (applyAllPatchesToFiles env raw w) = files w \<and>
                 trace (applyAllPatchesToFiles env raw w) =
                   trace w @
                   map (\<lambda>p. Notify InformationMessage (SkippingNoHunks (patchName p))) ps @
                   [Notify WarningMessage (Summary 0 (length ps) 0)]"
        by (simp add: applyAllPatchesToFiles_def summary_def emit_def)
    qed
    with Inr False show ?thesis by simp
  qed
qed

text \<open>
  The three answers on the same text: a parser that throws, one that returns nothing, and
  one that returns a patch without hunks.
\<close>

theorem nothing_parsed_nothing_applied_witness:
  "cleanDiffInput ''apply this please'' \<noteq> [] \<and>
   trace (applyAllPatchesToFiles (exampleHost (throwing ''no patches'') rejecting)
     ''apply this please'' (exampleWorld [''a''])) =
     [Notify ErrorMessage (ErrorParsing ''no patches''),
      PostParseError (ErrorParsing ''no patches'')] \<and>
   trace (applyAllPatchesToFiles (exampleHost (returning []) rejecting)
     ''apply this please'' (exampleWorld [''a''])) =
     [Notify ErrorMessage CouldNotParse, PostParseError CouldNotParse] \<and>
   trace (applyAllPatchesToFiles (exampleHost (returning [hunklessPatch]) rejecting)
     ''apply this please'' (exampleWorld [''a''])) =
     [Notify InformationMessage (SkippingNoHunks ''unknown_file''),
      Notify WarningMessage (Summary 0 1 0)] \<and>
   files (applyAllPatchesToFiles (exampleHost (returning [hunklessPatch]) rejecting)
     ''apply this please'' (exampleWorld [''a''])) = files (exampleWorld [''a''])"
proof -
  have clean: "cleanDiffInput ''apply this please'' \<noteq> []"
    by (simp add: cleanDiffInput_def string_defs)
  have name: "patchName hunklessPatch = ''unknown_file''"
    by (simp add: patchName_def hunklessPatch_def string_defs)
  have hs: "\<forall>p\<in>set [hunklessPatch]. hunks p = []"
    by (simp add: hunklessPatch_def)
  from nothing_parsed_nothing_applied[OF clean,
      of "exampleHost (throwing ''no patches'') rejecting" "exampleWorld [''a'']"]
  have one: "trace (applyAllPatchesToFiles (exampleHost (throwing ''no patches'') rejecting)
     ''apply this please'' (exampleWorld [''a''])) =
     [Notify ErrorMessage (ErrorParsing ''no patches''),
      PostParseError (ErrorParsing ''no patches'')]"
    by (simp add: exampleHost_def throwing_def exampleWorld_def)
  from nothing_parsed_nothing_applied[OF clean,
      of "exampleHost (returning []) rejecting" "exampleWorld [''a'']"]
  have two: "trace (applyAllPatchesToFiles (exampleHost (returning []) rejecting)
     ''apply this please'' (exampleWorld [''a''])) =
     [Notify ErrorMessage CouldNotParse, PostParseError CouldNotParse]"
    by (simp add: exampleHost_def returning_def exampleWorld_def)
  from nothing_parsed_nothing_applied[OF clean,
      of "exampleHost (returning [hunklessPatch]) rejecting" "exampleWorld [''a'']"] hs
  have three: "trace (applyAllPatchesToFiles (exampleHost (returning [hunklessPatch]) rejecting)
     ''apply this please'' (exampleWorld [''a''])) =
     [Notify InformationMessage (SkippingNoHunks ''unknown_file''),
      Notify WarningMessage (Summary 0 1 0)] \<and>
   files (applyAllPatchesToFiles (exampleHost (returning [hunklessPatch]) rejecting)
     ''apply this please'' (exampleWorld [''a''])) = files (exampleWorld [''a''])"
    by (simp add: exampleHost_def returning_def exampleWorld_def name)
  from clean one two three show ?thesis by (intro conjI) simp_all
qed

section \<open>The fuzz factor\<close>

text \<open>
  Claim C9. Every call of the library that a session of \<^verbatim>\<open>applyAllPatchesToFiles\<close> makes
  has fuzz factor 2. The session has no parameter for it: what the library would answer
  for any other fuzz factor has no influence on the session. The preview never calls the
  library.
\<close>

theorem library_called_with_fuzz_two:
  "(\<exists>es. trace (applyAllPatchesToFiles env raw w) = trace w @ es \<and>
         (\<forall>c q f. ApplyPatch c q f \<in> set es \<longrightarrow> f = 2)) \<and>
   ((\<forall>c q. g c q 2 = applyPatch env c q 2) \<longrightarrow>
      applyAllPatchesToFiles (env\<lparr>applyPatch := g\<rparr>) raw w = applyAllPatchesToFiles env raw w) \<and>
   (\<exists>es. trace (processAndShowAllDiffs env raw w) = trace w @ es \<and>
         filter isApplyPatch es = [])"
proof -
  from applyAll_ext[of w env raw] obtain es where es:
    "trace (applyAllPatchesToFiles env raw w) = trace w @ es"
    "\<forall>ev\<in>set es. applying ev \<or> reporting ev"
    unfolding ext_def list_all_iff by blast
  have "\<forall>c q f. ApplyPatch c q f \<in> set es \<longrightarrow> f = 2"
  proof (intro allI impI)
    fix c q f
    assume "ApplyPatch c q f \<in> set es"
    with es(2) have "applying (ApplyPatch c q f) \<or> reporting (ApplyPatch c q f)" by blast
    then show "f = 2" by (simp add: applying_def reporting_def)
  qed
  with es(1) have one: "\<exists>es. trace (applyAllPatchesToFiles env raw w) = trace w @ es \<and>
         (\<forall>c q f. ApplyPatch c q f \<in> set es \<longrightarrow> f = 2)"
    by (intro exI[of _ es] conjI)
  have two: "(\<forall>c q. g c q 2 = applyPatch env c q 2) \<longrightarrow>
      applyAllPatchesToFiles (env\<lparr>applyPatch := g\<rparr>) raw w = applyAllPatchesToFiles env raw w"
    by (intro impI) (rule applyAll_other)
  from preview_ext[of w env raw] obtain es' where es':
    "trace (processAndShowAllDiffs env raw w) = trace w @ es'" "\<forall>ev\<in>set es'. previewing ev"
    unfolding ext_def list_all_iff by blast
  have "filter isApplyPatch es' = []"
    using es'(2) by (induction es') (auto simp: previewing_def)
  with es'(1) have three: "\<exists>es. trace (processAndShowAllDiffs env raw w) = trace w @ es \<and>
         filter isApplyPatch es = []"
    by (intro exI[of _ es'] conjI)
  from one two three show ?thesis by (intro conjI)
qed

theorem library_called_with_fuzz_two_witness:
  "filter isApplyPatch (trace (applyAllPatchesToFiles
     (exampleHost (returning [modifyPatch, emptyPatch]) (yielding (textOf [''a'', ''B'', ''c''])))
     twoSections (exampleWorld [''a'', ''b'', ''c'']))) =
     [ApplyPatch (textOf [''a'', ''b'', ''c'']) modifyPatch 2]"
proof -
  from library_called_with_fuzz_two[of
      "exampleHost (returning [modifyPatch, emptyPatch]) (yielding (textOf [''a'', ''B'', ''c'']))"
      twoSections "exampleWorld [''a'', ''b'', ''c'']"]
  have calls: "\<exists>es. trace (applyAllPatchesToFiles
     (exampleHost (returning [modifyPatch, emptyPatch]) (yielding (textOf [''a'', ''B'', ''c''])))
     twoSections (exampleWorld [''a'', ''b'', ''c''])) = trace (exampleWorld [''a'', ''b'', ''c'']) @ es \<and>
     (\<forall>c q f. ApplyPatch c q f \<in> set es \<longrightarrow> f = 2)"
    by blast
  show ?thesis
    using calls unfolding lenient_session by (simp add: isApplyPatch_def exampleWorld_def)
qed

section \<open>The counters of a session\<close>

text \<open>
  Claim C10. When the parser returns patches, the session ends with the summary of the
  three counters, and the three counts add up to the number of patches returned: each
  patch went into exactly one of them.
\<close>

theorem counters_partition_patches:
  assumes clean: "cleanDiffInput raw \<noteq> []"
    and parse: "parsePatch env (cleanDiffInput raw) = Inr ps" and some: "ps \<noteq> []"
  shows "\<exists>sev a s e. last (trace (applyAllPatchesToFiles env raw w)) = Notify sev (Summary a s e) \<and>
           a + s + e = length ps"
proof -
  obtain a s e w1 where loop: "applyLoop env ps (0, 0, 0) w = ((a, s, e), w1)"
    by (metis surj_pair)
  from applyLoop_counts[OF loop] have sum: "a + s + e = length ps" by simp
  from clean parse some loop have
    "applyAllPatchesToFiles env raw w = emit (summary (a, s, e)) w1"
    by (simp add: applyAllPatchesToFiles_def)
  then have "last (trace (applyAllPatchesToFiles env raw w)) = summary (a, s, e)"
    by (simp add: emit_def)
  with sum show ?thesis by (auto simp: summary_def)
qed

theorem counters_partition_patches_witness:
  "last (trace (applyAllPatchesToFiles
     (exampleHost (returning [modifyPatch, emptyPatch]) (yielding (textOf [''a'', ''B'', ''c''])))
     twoSections (exampleWorld [''a'', ''b'', ''c''])))
     = Notify InformationMessage (Summary 1 1 0) \<and>
   (1::nat) + 1 + 0 = length [modifyPatch, emptyPatch]"
proof -
  have parse: "parsePatch
     (exampleHost (returning [modifyPatch, emptyPatch]) (yielding (textOf [''a'', ''B'', ''c''])))
     (cleanDiffInput twoSections) = Inr [modifyPatch, emptyPatch]"
    by (simp add: exampleHost_def returning_def)
  have some: "[modifyPatch, emptyPatch] \<noteq> []" by simp
  from counters_partition_patches[OF clean_twoSections parse some,
      of "exampleWorld [''a'', ''b'', ''c'']"]
  show ?thesis
    unfolding lenient_session by simp
qed

end
